theory Spec2Isabelle
  imports Main "HOL-Library.Word" "HOL-Library.Char_ord" "HOL-Library.List_Lexorder"
begin

unbundle bit_operations_syntax

section \<open>hashlib.sha256: SHA-256 over bytes (FIPS 180-4)\<close>

text \<open>
  \<^verbatim>\<open>hashlib.sha256(data).hexdigest()\<close> is the standard SHA-256 of a byte string,
  printed as 64 lowercase hexadecimal digits.  The library function is modelled
  by the algorithm of the standard on 32-bit words; the theory checks it
  against the published digest of \<^verbatim>\<open>abc\<close> below.
\<close>

type_synonym word32 = "32 word"
type_synonym byte = "8 word"

type_synonym sha_state =
  "word32 \<times> word32 \<times> word32 \<times> word32 \<times> word32 \<times> word32 \<times> word32 \<times> word32"

definition rotr :: "nat \<Rightarrow> word32 \<Rightarrow> word32" where
  "rotr n w = word_rotr n w"

definition Ch :: "word32 \<Rightarrow> word32 \<Rightarrow> word32 \<Rightarrow> word32" where
  "Ch x y z = (x AND y) XOR (NOT x AND z)"

definition Maj :: "word32 \<Rightarrow> word32 \<Rightarrow> word32 \<Rightarrow> word32" where
  "Maj x y z = (x AND y) XOR (x AND z) XOR (y AND z)"

definition bsig0 :: "word32 \<Rightarrow> word32" where
  "bsig0 x = rotr 2 x XOR rotr 13 x XOR rotr 22 x"

definition bsig1 :: "word32 \<Rightarrow> word32" where
  "bsig1 x = rotr 6 x XOR rotr 11 x XOR rotr 25 x"

definition ssig0 :: "word32 \<Rightarrow> word32" where
  "ssig0 x = rotr 7 x XOR rotr 18 x XOR drop_bit 3 x"

definition ssig1 :: "word32 \<Rightarrow> word32" where
  "ssig1 x = rotr 17 x XOR rotr 19 x XOR drop_bit 10 x"

text \<open>The round constants, in the eight rows of the table of the standard.\<close>

definition K256 :: "word32 list" where
  "K256 =
     [0x428a2f98, 0x71374491, 0xb5c0fbcf, 0xe9b5dba5, 0x3956c25b, 0x59f111f1, 0x923f82a4, 0xab1c5ed5] @
     [0xd807aa98, 0x12835b01, 0x243185be, 0x550c7dc3, 0x72be5d74, 0x80deb1fe, 0x9bdc06a7, 0xc19bf174] @
     [0xe49b69c1, 0xefbe4786, 0x0fc19dc6, 0x240ca1cc, 0x2de92c6f, 0x4a7484aa, 0x5cb0a9dc, 0x76f988da] @
     [0x983e5152, 0xa831c66d, 0xb00327c8, 0xbf597fc7, 0xc6e00bf3, 0xd5a79147, 0x06ca6351, 0x14292967] @
     [0x27b70a85, 0x2e1b2138, 0x4d2c6dfc, 0x53380d13, 0x650a7354, 0x766a0abb, 0x81c2c92e, 0x92722c85] @
     [0xa2bfe8a1, 0xa81a664b, 0xc24b8b70, 0xc76c51a3, 0xd192e819, 0xd6990624, 0xf40e3585, 0x106aa070] @
     [0x19a4c116, 0x1e376c08, 0x2748774c, 0x34b0bcb5, 0x391c0cb3, 0x4ed8aa4a, 0x5b9cca4f, 0x682e6ff3] @
     [0x748f82ee, 0x78a5636f, 0x84c87814, 0x8cc70208, 0x90befffa, 0xa4506ceb, 0xbef9a3f7, 0xc67178f2]"

definition H0 :: sha_state where
  "H0 = (0x6a09e667, 0xbb67ae85, 0x3c6ef372, 0xa54ff53a,
         0x510e527f, 0x9b05688c, 0x1f83d9ab, 0x5be0cd19)"

text \<open>Sixteen big-endian words of a 64-byte chunk.\<close>

fun be32 :: "byte list \<Rightarrow> word32 list" where
  "be32 (a # b # c # d # rest) =
     (push_bit 24 (ucast a) OR push_bit 16 (ucast b) OR push_bit 8 (ucast c) OR ucast d)
       # be32 rest"
| "be32 _ = []"

text \<open>The message schedule: \<open>n\<close> more words appended to the ones at hand.\<close>

fun extend :: "nat \<Rightarrow> word32 list \<Rightarrow> word32 list" where
  "extend 0 ws = ws"
| "extend (Suc n) ws =
     extend n (ws @ [ssig1 (ws ! (length ws - 2)) + ws ! (length ws - 7)
                     + ssig0 (ws ! (length ws - 15)) + ws ! (length ws - 16)])"

fun sha_round :: "sha_state \<Rightarrow> word32 \<times> word32 \<Rightarrow> sha_state" where
  "sha_round (a, b, c, d, e, f, g, h) (k, w) =
     (let t1 = h + bsig1 e + Ch e f g + k + w;
          t2 = bsig0 a + Maj a b c
      in (t1 + t2, a, b, c, d + t1, e, f, g))"

fun add_state :: "sha_state \<Rightarrow> sha_state \<Rightarrow> sha_state" where
  "add_state (a, b, c, d, e, f, g, h) (a', b', c', d', e', f', g', h') =
     (a + a', b + b', c + c', d + d', e + e', f + f', g + g', h + h')"

definition compress :: "sha_state \<Rightarrow> byte list \<Rightarrow> sha_state" where
  "compress st chunk = add_state st (foldl sha_round st (zip K256 (extend 48 (be32 chunk))))"

definition be64 :: "64 word \<Rightarrow> byte list" where
  "be64 n = map (\<lambda>i. ucast (drop_bit i n)) [56, 48, 40, 32, 24, 16, 8, 0]"

text \<open>
  Padding: the byte 0x80, zero bytes up to 56 modulo 64, and the length of the
  message in bits as a 64-bit big-endian number.
\<close>

definition pad :: "byte list \<Rightarrow> byte list" where
  "pad m = m @ [0x80] @ replicate ((119 - length m mod 64) mod 64) 0
             @ be64 (of_nat (8 * length m))"

fun chunks :: "nat \<Rightarrow> sha_state \<Rightarrow> byte list \<Rightarrow> sha_state" where
  "chunks 0 st bs = st"
| "chunks (Suc n) st bs = chunks n (compress st (take 64 bs)) (drop 64 bs)"

definition sha256 :: "byte list \<Rightarrow> sha_state" where
  "sha256 m = chunks (length (pad m) div 64) H0 (pad m)"

definition hex_digit :: "word32 \<Rightarrow> char" where
  "hex_digit w = ''0123456789abcdef'' ! unat (w AND 15)"

definition hex32 :: "word32 \<Rightarrow> string" where
  "hex32 w = map (\<lambda>i. hex_digit (drop_bit i w)) [28, 24, 20, 16, 12, 8, 4, 0]"

fun hexdigest :: "sha_state \<Rightarrow> string" where
  "hexdigest (a, b, c, d, e, f, g, h) =
     hex32 a @ hex32 b @ hex32 c @ hex32 d @ hex32 e @ hex32 f @ hex32 g @ hex32 h"

definition sha256_hexdigest :: "byte list \<Rightarrow> string" where
  "sha256_hexdigest m = hexdigest (sha256 m)"

section \<open>Python values: strings, integers, floats\<close>

text \<open>
  A Python \<^verbatim>\<open>str\<close> is modelled as a \<^typ>\<open>string\<close> whose characters are the code
  points U+0000 to U+00FF, one \<^typ>\<open>char\<close> each (hexadecimal addresses and digests are
  ASCII).  \<^verbatim>\<open>str.encode()\<close> is UTF-8: a code point below 128 is one byte, one
  from 128 to 255 is two.
\<close>

definition utf8_char :: "char \<Rightarrow> byte list" where
  "utf8_char c =
     (if of_char c < (128::nat) then [of_char c]
      else [0xC0 OR drop_bit 6 (of_char c), 0x80 OR (of_char c AND 0x3F)])"

definition encode :: "string \<Rightarrow> byte list" where
  "encode s = concat (map utf8_char s)"

text \<open>\<^verbatim>\<open>s.startswith(p)\<close> and \<^verbatim>\<open>"0" * n\<close> (empty for \<open>n \<le> 0\<close>).\<close>

definition startswith :: "string \<Rightarrow> string \<Rightarrow> bool" where
  "startswith s p = (take (length p) s = p)"

definition zeros :: "int \<Rightarrow> string" where
  "zeros n = replicate (nat n) (CHR ''0'')"

text \<open>\<^verbatim>\<open>str(n)\<close> of an unbounded Python integer.\<close>

definition digit_char :: "nat \<Rightarrow> char" where
  "digit_char n = ''0123456789'' ! (n mod 10)"

fun str_nat :: "nat \<Rightarrow> string" where
  "str_nat n = (if n < 10 then [digit_char n] else str_nat (n div 10) @ [digit_char n])"

declare str_nat.simps [simp del]

definition str_int :: "int \<Rightarrow> string" where
  "str_int i = (if i < 0 then ''-'' @ str_nat (nat (- i)) else str_nat (nat i))"

text \<open>
  A Python \<^verbatim>\<open>float\<close> enters the program only through its \<^verbatim>\<open>repr\<close> (the shortest
  decimal string that reads back as the same float; \<^verbatim>\<open>nan\<close>, \<^verbatim>\<open>inf\<close> and \<^verbatim>\<open>-inf\<close>
  for the special values), which is what an f-string and \<^verbatim>\<open>json.dumps\<close> print.
  A float is therefore represented by that string.
\<close>

datatype pyfloat = PyFloat (float_repr: string)

text \<open>The values of a dictionary built by \<^verbatim>\<open>to_dict\<close>; a dictionary keeps insertion order.\<close>

datatype pyval =
    PStr string
  | PFloat pyfloat
  | PInt int
  | PList "pyval list"
  | PDict "(string \<times> pyval) list"

type_synonym pydict = "(string \<times> pyval) list"

section \<open>json.dumps(obj, sort_keys=True)\<close>

text \<open>
  The encoder of the standard library with its defaults: \<^verbatim>\<open>ensure_ascii=True\<close>, the
  item separator \<^verbatim>\<open>", "\<close> and the key separator \<^verbatim>\<open>": "\<close>; \<^verbatim>\<open>sort_keys=True\<close>
  writes the items of every dictionary in the order of their keys.
\<close>

definition dquote :: char where
  "dquote = CHR 0x22"

definition backslash :: char where
  "backslash = CHR 0x5C"

definition hex_char :: "nat \<Rightarrow> char" where
  "hex_char n = ''0123456789abcdef'' ! (n mod 16)"

text \<open>\<^verbatim>\<open>'\\u{0:04x}'.format(n)\<close> without the leading backslash and \<^verbatim>\<open>u\<close>.\<close>

definition hex4 :: "nat \<Rightarrow> string" where
  "hex4 n = [hex_char (n div 4096), hex_char (n div 256), hex_char (n div 16), hex_char n]"

text \<open>
  One character of \<^verbatim>\<open>py_encode_basestring_ascii\<close>: the short escapes of
  \<^verbatim>\<open>ESCAPE_DCT\<close>, the printable ASCII characters as they are, and
  \<^verbatim>\<open>\uXXXX\<close> for everything else.
\<close>

definition escape_ascii :: "char \<Rightarrow> string" where
  "escape_ascii c =
     (if c = backslash then [backslash, backslash]
      else if c = dquote then [backslash, dquote]
      else if c = CHR 0x08 then [backslash, CHR ''b'']
      else if c = CHR 0x0C then [backslash, CHR ''f'']
      else if c = CHR 0x0A then [backslash, CHR ''n'']
      else if c = CHR 0x0D then [backslash, CHR ''r'']
      else if c = CHR 0x09 then [backslash, CHR ''t'']
      else if (0x20::nat) \<le> of_char c \<and> of_char c \<le> (0x7E::nat) then [c]
      else [backslash, CHR ''u''] @ hex4 (of_char c))"

definition encode_basestring_ascii :: "string \<Rightarrow> string" where
  "encode_basestring_ascii s = [dquote] @ concat (map escape_ascii s) @ [dquote]"

text \<open>\<^verbatim>\<open>floatstr\<close> of \<^verbatim>\<open>json.encoder\<close>: \<^verbatim>\<open>float.__repr__\<close> but for the special values.\<close>

definition floatstr :: "pyfloat \<Rightarrow> string" where
  "floatstr o' =
     (if float_repr o' = ''nan'' then ''NaN''
      else if float_repr o' = ''inf'' then ''Infinity''
      else if float_repr o' = ''-inf'' then ''-Infinity''
      else float_repr o')"

text \<open>\<^verbatim>\<open>sep.join(xs)\<close>\<close>

fun join :: "string \<Rightarrow> string list \<Rightarrow> string" where
  "join sep [] = []"
| "join sep [x] = x"
| "join sep (x # y # ys) = x @ sep @ join sep (y # ys)"

fun json_dumps :: "pyval \<Rightarrow> string" where
  "json_dumps (PStr s) = encode_basestring_ascii s"
| "json_dumps (PFloat f) = floatstr f"
| "json_dumps (PInt i) = str_int i"
| "json_dumps (PList xs) = ''['' @ join '', '' (map json_dumps xs) @ '']''"
| "json_dumps (PDict kvs) =
     ''{'' @ join '', ''
              (map (\<lambda>kv. encode_basestring_ascii (fst kv) @ '': '' @ json_dumps (snd kv))
                   (sort_key fst kvs))
          @ ''}''"

section \<open>Reading dictionaries\<close>

text \<open>
  \<^verbatim>\<open>data[key]\<close> raises \<^verbatim>\<open>KeyError\<close> when the key is missing.  The classes annotate
  the types of their fields (\<^verbatim>\<open>str\<close>, \<^verbatim>\<open>float\<close>, \<^verbatim>\<open>int\<close>, \<^verbatim>\<open>List[Transaction]\<close>) and
  the model is typed accordingly; a dictionary whose value has another type is
  outside the typed model and is reported as \<open>IllTyped\<close> (Python itself checks
  nothing at that point).
\<close>

datatype error = KeyError string | IllTyped

definition bind :: "error + 'a \<Rightarrow> ('a \<Rightarrow> error + 'b) \<Rightarrow> error + 'b" where
  "bind m f = (case m of Inl e \<Rightarrow> Inl e | Inr x \<Rightarrow> f x)"

definition getitem :: "pydict \<Rightarrow> string \<Rightarrow> error + pyval" where
  "getitem data key = (case map_of data key of None \<Rightarrow> Inl (KeyError key) | Some v \<Rightarrow> Inr v)"

fun as_str :: "pyval \<Rightarrow> error + string" where
  "as_str (PStr s) = Inr s"
| "as_str _ = Inl IllTyped"

fun as_float :: "pyval \<Rightarrow> error + pyfloat" where
  "as_float (PFloat f) = Inr f"
| "as_float _ = Inl IllTyped"

fun as_int :: "pyval \<Rightarrow> error + int" where
  "as_int (PInt i) = Inr i"
| "as_int _ = Inl IllTyped"

fun as_list :: "pyval \<Rightarrow> error + pyval list" where
  "as_list (PList xs) = Inr xs"
| "as_list _ = Inl IllTyped"

fun as_dict :: "pyval \<Rightarrow> error + pydict" where
  "as_dict (PDict kvs) = Inr kvs"
| "as_dict _ = Inl IllTyped"

text \<open>A list comprehension whose body may raise: the first exception ends it.\<close>

fun comprehension :: "('a \<Rightarrow> error + 'b) \<Rightarrow> 'a list \<Rightarrow> error + 'b list" where
  "comprehension f [] = Inr []"
| "comprehension f (x # xs) =
     bind (f x) (\<lambda>y. bind (comprehension f xs) (\<lambda>ys. Inr (y # ys)))"

section \<open>blockchain.py: Transaction, Block, Blockchain\<close>

text \<open>
  Every call of the constructors in the code modelled here passes a timestamp, so
  the default \<^verbatim>\<open>timestamp=None\<close> (replaced by \<^verbatim>\<open>time.time()\<close>) is not modelled; where
  the code reads the clock itself, the reading is a parameter of the model.
\<close>

record transaction =
  sender :: string
  recipient :: string
  amount :: pyfloat
  tx_timestamp :: pyfloat

definition Transaction :: "string \<Rightarrow> string \<Rightarrow> pyfloat \<Rightarrow> pyfloat \<Rightarrow> transaction" where
  "Transaction sender' recipient' amount' timestamp' =
     \<lparr>sender = sender', recipient = recipient', amount = amount', tx_timestamp = timestamp'\<rparr>"

definition Transaction_to_dict :: "transaction \<Rightarrow> pydict" where
  "Transaction_to_dict self =
     [(''sender'', PStr (sender self)),
      (''recipient'', PStr (recipient self)),
      (''amount'', PFloat (amount self)),
      (''timestamp'', PFloat (tx_timestamp self))]"

definition Transaction_from_dict :: "pydict \<Rightarrow> error + transaction" where
  "Transaction_from_dict data =
     bind (bind (getitem data ''sender'') as_str) (\<lambda>sender'.
     bind (bind (getitem data ''recipient'') as_str) (\<lambda>recipient'.
     bind (bind (getitem data ''amount'') as_float) (\<lambda>amount'.
     bind (bind (getitem data ''timestamp'') as_float) (\<lambda>timestamp'.
     Inr (Transaction sender' recipient' amount' timestamp')))))"

record block =
  previous_hash :: string
  timestamp :: pyfloat
  nonce :: int
  transactions :: "transaction list"
  hash :: string

text \<open>
  \<^verbatim>\<open>Block.calculate_hash\<close> reads the four content fields only, so the model takes
  them as arguments; \<open>calculate_hash\<close> below is the method on a block.
\<close>

definition block_string :: "string \<Rightarrow> pyfloat \<Rightarrow> int \<Rightarrow> transaction list \<Rightarrow> string" where
  "block_string previous_hash' timestamp' nonce' transactions' =
     (let transactions_str =
            json_dumps (PList (map (\<lambda>tx. PDict (Transaction_to_dict tx)) transactions'))
      in previous_hash' @ float_repr timestamp' @ str_int nonce' @ transactions_str)"

definition digest :: "string \<Rightarrow> pyfloat \<Rightarrow> int \<Rightarrow> transaction list \<Rightarrow> string" where
  "digest previous_hash' timestamp' nonce' transactions' =
     sha256_hexdigest (encode (block_string previous_hash' timestamp' nonce' transactions'))"

definition calculate_hash :: "block \<Rightarrow> string" where
  "calculate_hash self =
     digest (previous_hash self) (timestamp self) (nonce self) (transactions self)"

definition Block :: "string \<Rightarrow> transaction list \<Rightarrow> pyfloat \<Rightarrow> int \<Rightarrow> block" where
  "Block previous_hash' transactions' timestamp' nonce' =
     \<lparr>previous_hash = previous_hash', timestamp = timestamp', nonce = nonce',
      transactions = transactions',
      hash = digest previous_hash' timestamp' nonce' transactions'\<rparr>"

definition Block_to_dict :: "block \<Rightarrow> pydict" where
  "Block_to_dict self =
     [(''previous_hash'', PStr (previous_hash self)),
      (''timestamp'', PFloat (timestamp self)),
      (''nonce'', PInt (nonce self)),
      (''transactions'', PList (map (\<lambda>tx. PDict (Transaction_to_dict tx)) (transactions self))),
      (''hash'', PStr (hash self))]"

text \<open>
  The comprehension \<^verbatim>\<open>[Transaction.from_dict(tx) for tx in data["transactions"]]\<close> on the
  value stored under the key.
\<close>

definition transactions_from :: "pyval \<Rightarrow> error + transaction list" where
  "transactions_from v =
     bind (as_list v) (comprehension (\<lambda>tx. bind (as_dict tx) Transaction_from_dict))"

definition Block_from_dict :: "pydict \<Rightarrow> error + block" where
  "Block_from_dict data =
     bind (bind (getitem data ''transactions'') transactions_from) (\<lambda>transactions'.
     bind (bind (getitem data ''previous_hash'') as_str) (\<lambda>previous_hash'.
     bind (bind (getitem data ''timestamp'') as_float) (\<lambda>timestamp'.
     bind (bind (getitem data ''nonce'') as_int) (\<lambda>nonce'.
     bind (bind (getitem data ''hash'') as_str) (\<lambda>hash'.
     Inr ((Block previous_hash' transactions' timestamp' nonce')\<lparr>hash := hash'\<rparr>))))))"

record blockchain =
  chain :: "block list"

text \<open>The two clock readings of \<^verbatim>\<open>create_genesis_block\<close> are its arguments.\<close>

definition create_genesis_block :: "pyfloat \<Rightarrow> pyfloat \<Rightarrow> blockchain \<Rightarrow> blockchain" where
  "create_genesis_block now1 now2 self =
     (let genesis_tx = Transaction (replicate 64 (CHR ''0'')) (replicate 64 (CHR ''0''))
                         (PyFloat ''0.0'') now1;
          genesis_block = Block (replicate 64 (CHR ''0'')) [genesis_tx] now2 0
      in self\<lparr>chain := chain self @ [genesis_block]\<rparr>)"

definition Blockchain :: "pyfloat \<Rightarrow> pyfloat \<Rightarrow> blockchain" where
  "Blockchain now1 now2 = create_genesis_block now1 now2 \<lparr>chain = []\<rparr>"

text \<open>\<^verbatim>\<open>self.chain[-1]\<close>: an \<^verbatim>\<open>IndexError\<close> on the empty chain.\<close>

definition get_latest_block :: "blockchain \<Rightarrow> block option" where
  "get_latest_block self = (if chain self = [] then None else Some (last (chain self)))"

text \<open>
  \<^verbatim>\<open>validate_block\<close> returns a truth value and prints one line when it rejects;
  the model returns the value together with the lines printed.
\<close>

definition validate_block :: "blockchain \<Rightarrow> block \<Rightarrow> int \<Rightarrow> bool \<times> string list" where
  "validate_block self block' difficulty =
     (if length (chain self) > 0
         \<and> previous_hash block' \<noteq> hash (the (get_latest_block self)) then
        (False, [''Invalid previous_hash: expected ''
                   @ take 16 (hash (the (get_latest_block self))) @ ''..., got ''
                   @ take 16 (previous_hash block') @ ''...''])
      else if calculate_hash block' \<noteq> hash block' then
        (False, [''Hash mismatch: expected '' @ take 16 (calculate_hash block')
                   @ ''..., got '' @ take 16 (hash block') @ ''...''])
      else if \<not> startswith (hash block') (zeros difficulty) then
        (False, [''Hash does not meet difficulty requirement (needs ''
                   @ str_int difficulty @ '' leading zeros)''])
      else if transactions block' = [] then
        (False, [''Block has no transactions''])
      else (True, []))"

text \<open>\<^verbatim>\<open>add_block\<close>: the value returned, the chain afterwards, the lines printed.\<close>

definition add_block :: "blockchain \<Rightarrow> block \<Rightarrow> int \<Rightarrow> bool \<times> blockchain \<times> string list" where
  "add_block self block' difficulty =
     (case validate_block self block' difficulty of
        (ok, out) \<Rightarrow>
          if \<not> ok then (False, self, out @ [''Block validation failed''])
          else (True, self\<lparr>chain := chain self @ [block']\<rparr>, out))"

definition Blockchain_to_dict :: "blockchain \<Rightarrow> pydict" where
  "Blockchain_to_dict self =
     [(''length'', PInt (int (length (chain self)))),
      (''blocks'', PList (map (\<lambda>block'. PDict (Block_to_dict block')) (chain self)))]"

text \<open>
  \<^verbatim>\<open>Blockchain.from_dict\<close> builds a fresh chain, empties it and appends every
  stored block; the genesis block of the fresh chain is dropped with it, so no
  clock reading survives.
\<close>

definition Blockchain_from_dict :: "pydict \<Rightarrow> error + blockchain" where
  "Blockchain_from_dict data =
     bind (bind (getitem data ''blocks'') as_list) (\<lambda>blocks.
     bind (comprehension (\<lambda>block_data. bind (as_dict block_data) Block_from_dict) blocks)
       (\<lambda>bs. Inr \<lparr>chain = bs\<rparr>))"

section \<open>blockchain.py: mine_block\<close>

text \<open>
  The loop of \<^verbatim>\<open>mine_block\<close>.  With \<^verbatim>\<open>max_nonce=None\<close> it has no bound, so the model is
  a partial function: \<open>None\<close> is a run that never returns, \<open>Some (Some block, n)\<close> the
  return of a block, \<open>Some (None, n)\<close> the return \<^verbatim>\<open>None, nonces_tested\<close> after the
  bound.  The progress callback is only called and its result dropped; the model
  is the call without one (the default).  The clock reading \<^verbatim>\<open>time.time()\<close> is the
  argument \<open>now\<close>.
\<close>

partial_function (option) mine_loop ::
  "string \<Rightarrow> transaction list \<Rightarrow> string \<Rightarrow> int option \<Rightarrow> pyfloat \<Rightarrow> int \<Rightarrow> nat
     \<Rightarrow> (block option \<times> nat) option"
where
  "mine_loop previous_hash' transactions' required_prefix max_nonce timestamp' nonce'
       nonces_tested =
     (if max_nonce = None \<or> nonce' < the max_nonce then
        (if startswith (hash (Block previous_hash' transactions' timestamp' nonce'))
              required_prefix
         then Some (Some (Block previous_hash' transactions' timestamp' nonce'),
                    nonces_tested + 1)
         else mine_loop previous_hash' transactions' required_prefix max_nonce timestamp'
                (nonce' + 1) (nonces_tested + 1))
      else Some (None, nonces_tested))"

definition mine_block ::
  "string \<Rightarrow> transaction list \<Rightarrow> int \<Rightarrow> int \<Rightarrow> int option \<Rightarrow> pyfloat
     \<Rightarrow> (block option \<times> nat) option"
where
  "mine_block previous_hash' transactions' difficulty start_nonce max_nonce now =
     mine_loop previous_hash' transactions' (zeros difficulty) max_nonce now start_nonce 0"

section \<open>pow_parallel.py: worker_mine and the coordinator\<close>

text \<open>
  The report a worker puts on the result queue and returns: the dictionary with
  \<^verbatim>\<open>"found": True\<close> or the one with \<^verbatim>\<open>"found": False\<close>.
\<close>

datatype report =
    Found (worker_id: int) (found_nonce: int) (found_hash: string) (block_data: pydict)
          (nonces_tested: nat)
  | NotFound (worker_id: int) (nonces_tested: nat)

definition check_interval :: nat where
  "check_interval = 10000"

text \<open>
  One pass through the body of \<^verbatim>\<open>while True\<close>: a report (the loop returns) or the
  next values of \<^verbatim>\<open>nonce\<close> and \<^verbatim>\<open>nonces_tested\<close>.  The shared \<^verbatim>\<open>found_flag\<close> is written
  by the other workers; \<open>found_flag n\<close> is what this worker reads from it when it has
  tested \<open>n\<close> nonces.  A worker that finds a block sets the flag before it reports.
\<close>

definition worker_body ::
  "int \<Rightarrow> string \<Rightarrow> transaction list \<Rightarrow> pyfloat \<Rightarrow> string \<Rightarrow> int \<Rightarrow> (nat \<Rightarrow> bool)
     \<Rightarrow> int \<times> nat \<Rightarrow> report + int \<times> nat"
where
  "worker_body worker_id' previous_hash' transactions' timestamp' required_prefix step
       found_flag st =
     (case st of (nonce', nonces_tested') \<Rightarrow>
        (let block' = Block previous_hash' transactions' timestamp' nonce';
             nonces_tested' = nonces_tested' + 1
         in if startswith (hash block') required_prefix then
              Inl (Found worker_id' nonce' (hash block')
                     [(''previous_hash'', PStr (previous_hash block')),
                      (''timestamp'', PFloat (timestamp block')),
                      (''nonce'', PInt (nonce block')),
                      (''transactions'',
                         PList (map (\<lambda>tx. PDict (Transaction_to_dict tx)) (transactions block'))),
                      (''hash'', PStr (hash block'))]
                     nonces_tested')
            else if nonces_tested' mod check_interval = 0 \<and> found_flag nonces_tested' then
              Inl (NotFound worker_id' nonces_tested')
            else Inr (nonce' + step, nonces_tested')))"

partial_function (option) worker_loop ::
  "int \<Rightarrow> string \<Rightarrow> transaction list \<Rightarrow> pyfloat \<Rightarrow> string \<Rightarrow> int \<Rightarrow> (nat \<Rightarrow> bool)
     \<Rightarrow> int \<times> nat \<Rightarrow> report option"
where
  "worker_loop worker_id' previous_hash' transactions' timestamp' required_prefix step
       found_flag st =
     (case worker_body worker_id' previous_hash' transactions' timestamp' required_prefix step
             found_flag st of
        Inl result \<Rightarrow> Some result
      | Inr st' \<Rightarrow>
          worker_loop worker_id' previous_hash' transactions' timestamp' required_prefix step
            found_flag st')"

text \<open>
  \<^verbatim>\<open>worker_mine\<close>: \<open>None\<close> is a worker that never returns, \<open>Some (Inl e)\<close> one that
  raises while it reads \<^verbatim>\<open>transactions_data\<close>.
\<close>

definition worker_mine ::
  "int \<Rightarrow> string \<Rightarrow> pydict list \<Rightarrow> pyfloat \<Rightarrow> int \<Rightarrow> int \<Rightarrow> int \<Rightarrow> (nat \<Rightarrow> bool)
     \<Rightarrow> (error + report) option"
where
  "worker_mine worker_id' previous_hash' transactions_data timestamp' difficulty start_nonce
       step found_flag =
     (case comprehension Transaction_from_dict transactions_data of
        Inl e \<Rightarrow> Some (Inl e)
      | Inr transactions' \<Rightarrow>
          map_option Inr
            (worker_loop worker_id' previous_hash' transactions' timestamp' (zeros difficulty)
               step found_flag (start_nonce, 0)))"

text \<open>
  The states the loop of a worker passes through, from \<^verbatim>\<open>nonce = start_nonce\<close> and
  \<^verbatim>\<open>nonces_tested = 0\<close>: in each of them the worker tests the block of that nonce.
\<close>

inductive worker_reaches ::
  "int \<Rightarrow> string \<Rightarrow> transaction list \<Rightarrow> pyfloat \<Rightarrow> string \<Rightarrow> int \<Rightarrow> (nat \<Rightarrow> bool)
     \<Rightarrow> int \<Rightarrow> int \<times> nat \<Rightarrow> bool"
  for worker_id' previous_hash' transactions' timestamp' required_prefix step found_flag
      start_nonce
where
  reach_start: "worker_reaches worker_id' previous_hash' transactions' timestamp' required_prefix
            step found_flag start_nonce (start_nonce, 0)"
| reach_step: "worker_reaches worker_id' previous_hash' transactions' timestamp' required_prefix
            step found_flag start_nonce st \<Longrightarrow>
         worker_body worker_id' previous_hash' transactions' timestamp' required_prefix step
            found_flag st = Inr st' \<Longrightarrow>
         worker_reaches worker_id' previous_hash' transactions' timestamp' required_prefix
            step found_flag start_nonce st'"

text \<open>
  \<^verbatim>\<open>mine_block_parallel\<close>: the arguments of the \<^verbatim>\<open>apply_async\<close> calls, one worker for
  each \<^verbatim>\<open>worker_id\<close> in \<^verbatim>\<open>range(num_workers)\<close>, as (worker_id, start_nonce, step); the
  other arguments are the same for all workers.
\<close>

text \<open>\<^verbatim>\<open>range(n)\<close>, empty for \<open>n \<le> 0\<close>.\<close>

definition py_range :: "int \<Rightarrow> int list" where
  "py_range n = map int [0..<nat n]"

definition spawned :: "int \<Rightarrow> (int \<times> int \<times> int) list" where
  "spawned num_workers = map (\<lambda>worker_id'. (worker_id', worker_id', num_workers)) (py_range num_workers)"

text \<open>
  The block the coordinator builds from a report with \<^verbatim>\<open>result["found"]\<close>: the
  constructor on the fields of \<^verbatim>\<open>block_data\<close>, then \<^verbatim>\<open>found_block.hash\<close> overwritten
  with the reported hash.
\<close>

definition found_block :: "pydict \<Rightarrow> error + block" where
  "found_block block_data' =
     bind (bind (getitem block_data' ''transactions'') transactions_from) (\<lambda>block_transactions.
     bind (bind (getitem block_data' ''previous_hash'') as_str) (\<lambda>previous_hash'.
     bind (bind (getitem block_data' ''timestamp'') as_float) (\<lambda>timestamp'.
     bind (bind (getitem block_data' ''nonce'') as_int) (\<lambda>nonce'.
     bind (bind (getitem block_data' ''hash'') as_str) (\<lambda>hash'.
     Inr ((Block previous_hash' block_transactions timestamp' nonce')\<lparr>hash := hash'\<rparr>))))))"

section \<open>What the specification says, for comparison with the code\<close>

text \<open>
  The canonical serialization in the words of the specification: the records of
  the transactions with their fields in alphabetical order and no whitespace
  between the tokens, after \<open>previous_hash\<close>, the timestamp and the nonce.
\<close>

definition quoted :: "string \<Rightarrow> string" where
  "quoted s = [dquote] @ s @ [dquote]"

definition spec_transaction_record :: "transaction \<Rightarrow> string" where
  "spec_transaction_record tx =
     ''{'' @ quoted ''amount'' @ '':'' @ floatstr (amount tx)
       @ '','' @ quoted ''recipient'' @ '':'' @ encode_basestring_ascii (recipient tx)
       @ '','' @ quoted ''sender'' @ '':'' @ encode_basestring_ascii (sender tx)
       @ '','' @ quoted ''timestamp'' @ '':'' @ floatstr (tx_timestamp tx) @ ''}''"

definition spec_digest_input :: "string \<Rightarrow> pyfloat \<Rightarrow> int \<Rightarrow> transaction list \<Rightarrow> string" where
  "spec_digest_input previous_hash' timestamp' nonce' transactions' =
     previous_hash' @ float_repr timestamp' @ str_int nonce'
       @ ''['' @ join '','' (map spec_transaction_record transactions') @ '']''"

text \<open>
  The validator in the words of the specification: four checks, all of them run,
  each with its own kind of error.  \<open>violated\<close> lists the kinds of all the
  conditions a candidate breaks, in the order of the checks; \<open>diagnostic\<close> is the
  line \<^verbatim>\<open>validate_block\<close> prints for a kind.
\<close>

datatype validation_error =
  LinkageError | HashMismatchError | DifficultyNotMetError | EmptyBlockError

definition violated :: "blockchain \<Rightarrow> block \<Rightarrow> int \<Rightarrow> validation_error list" where
  "violated self block' difficulty =
     (if chain self \<noteq> [] \<and> previous_hash block' \<noteq> hash (last (chain self))
      then [LinkageError] else [])
     @ (if calculate_hash block' \<noteq> hash block' then [HashMismatchError] else [])
     @ (if \<not> startswith (hash block') (zeros difficulty) then [DifficultyNotMetError] else [])
     @ (if transactions block' = [] then [EmptyBlockError] else [])"

fun diagnostic :: "blockchain \<Rightarrow> block \<Rightarrow> int \<Rightarrow> validation_error \<Rightarrow> string" where
  "diagnostic self block' difficulty LinkageError =
     ''Invalid previous_hash: expected '' @ take 16 (hash (last (chain self)))
       @ ''..., got '' @ take 16 (previous_hash block') @ ''...''"
| "diagnostic self block' difficulty HashMismatchError =
     ''Hash mismatch: expected '' @ take 16 (calculate_hash block')
       @ ''..., got '' @ take 16 (hash block') @ ''...''"
| "diagnostic self block' difficulty DifficultyNotMetError =
     ''Hash does not meet difficulty requirement (needs '' @ str_int difficulty
       @ '' leading zeros)''"
| "diagnostic self block' difficulty EmptyBlockError = ''Block has no transactions''"

section \<open>What a run of the mining loop establishes\<close>

text \<open>
  The result of \<open>mine_loop\<close> entered with \<open>nonce = n\<close> and \<open>nonces_tested = t\<close>: a
  block of the first nonce from \<open>n\<close> on whose digest has the prefix, after one test
  for each nonce up to it; or no block, after one test for each nonce below the
  bound, none of which has the prefix.
\<close>

definition mine_post ::
  "string \<Rightarrow> transaction list \<Rightarrow> string \<Rightarrow> int option \<Rightarrow> pyfloat \<Rightarrow> int \<Rightarrow> nat
     \<Rightarrow> block option \<times> nat \<Rightarrow> bool"
where
  "mine_post p txs pre mx ts n t res =
     (case res of
        (Some b, c) \<Rightarrow>
          (\<exists>k. b = Block p txs ts (n + int k) \<and> c = t + k + 1
             \<and> startswith (digest p ts (n + int k) txs) pre
             \<and> (\<forall>j<k. \<not> startswith (digest p ts (n + int j) txs) pre)
             \<and> (mx = None \<or> n + int k < the mx))
      | (None, c) \<Rightarrow>
          (\<exists>M. mx = Some M \<and> c = t + nat (M - n)
             \<and> (\<forall>m. n \<le> m \<and> m < M \<longrightarrow> \<not> startswith (digest p ts m txs) pre)))"

section \<open>A run of the program\<close>

text \<open>
  A chain created at the clock reading 1700000000.0, one transaction, and the
  search for its block at the reading 1700000010.0 with difficulty 1.
\<close>

definition t0 :: pyfloat where
  "t0 = PyFloat ''1700000000.0''"

definition t1 :: pyfloat where
  "t1 = PyFloat ''1700000010.0''"

definition tx1 :: transaction where
  "tx1 = Transaction ''a'' ''b'' (PyFloat ''10.0'') (PyFloat ''1700000001.5'')"

definition genesis_hash :: string where
  "genesis_hash = ''471f04d2af148be544e141a8ae8a7c71f4ad09ea689aa03f219d078ef5006534''"

definition hash_nonce0 :: string where
  "hash_nonce0 = ''5de24abe6ad0b579d5a3d3f4ef9d6a36e892482fc97b7da32cf14fd35c21f29a''"

definition hash_nonce1 :: string where
  "hash_nonce1 = ''0d3899e8bee9856ca3ee46e1f12e4dd52c60800058761b700834f39dae668141''"

text \<open>A stored block whose hash field is not the digest of its other fields.\<close>

definition forged_data :: pydict where
  "forged_data =
     [(''previous_hash'', PStr genesis_hash),
      (''timestamp'', PFloat t1),
      (''nonce'', PInt 0),
      (''transactions'', PList [PDict (Transaction_to_dict tx1)]),
      (''hash'', PStr ''00c0ffee'')]"

definition forged_block :: block where
  "forged_block =
     \<lparr>previous_hash = genesis_hash, timestamp = t1, nonce = 0, transactions = [tx1],
      hash = ''00c0ffee''\<rparr>"

definition forged_chain_data :: pydict where
  "forged_chain_data = [(''length'', PInt 1), (''blocks'', PList [PDict forged_data])]"

text \<open>A candidate that breaks all four conditions of the validator at once.\<close>

definition broken_block :: block where
  "broken_block =
     \<lparr>previous_hash = ''ff'', timestamp = t1, nonce = 0, transactions = [], hash = ''abc''\<rparr>"

section \<open>The digest\<close>

lemma length_hex32: "length (hex32 w) = 8"
  by (simp add: hex32_def)

lemma hex_digit_lower: "hex_digit w \<in> set ''0123456789abcdef''"
proof -
  have "w AND 15 \<le> 15" by (rule word_and_le1)
  then have "unat (w AND 15) \<le> 15" by (simp add: word_le_nat_alt)
  then have "unat (w AND 15) < length ''0123456789abcdef''" by simp
  then show ?thesis unfolding hex_digit_def by (rule nth_mem)
qed

lemma set_hex32: "set (hex32 w) \<subseteq> set ''0123456789abcdef''"
  using hex_digit_lower by (auto simp: hex32_def)

lemma length_hexdigest: "length (hexdigest st) = 64"
  by (induction st rule: hexdigest.induct) (simp add: length_hex32)

lemma set_hexdigest: "set (hexdigest st) \<subseteq> set ''0123456789abcdef''"
proof (induction st rule: hexdigest.induct)
  case (1 a b c d e f g h)
  show ?case unfolding hexdigest.simps set_append
    by (intro Un_least set_hex32)
qed

lemma length_sha256_hexdigest: "length (sha256_hexdigest m) = 64"
  by (simp add: sha256_hexdigest_def length_hexdigest)

lemma set_sha256_hexdigest: "set (sha256_hexdigest m) \<subseteq> set ''0123456789abcdef''"
  by (simp only: sha256_hexdigest_def set_hexdigest)

lemma length_digest: "length (digest p ts n txs) = 64"
  by (simp add: digest_def length_sha256_hexdigest)

text \<open>The digest of \<^verbatim>\<open>abc\<close> as the standard gives it.\<close>

lemma sha256_abc:
  "sha256_hexdigest (encode ''abc'')
     = ''ba7816bf8f01cfea414140de5dae2223b00361a396177a9cb410ff61f20015ad''"
  by code_simp

text \<open>The three digests of the run, by evaluation.\<close>

lemma digest_genesis:
  "digest (replicate 64 (CHR ''0'')) t0 0
     [Transaction (replicate 64 (CHR ''0'')) (replicate 64 (CHR ''0'')) (PyFloat ''0.0'') t0]
   = genesis_hash"
  by code_simp

lemma digest_nonce0: "digest genesis_hash t1 0 [tx1] = hash_nonce0"
  by code_simp

lemma digest_nonce1: "digest genesis_hash t1 1 [tx1] = hash_nonce1"
  by code_simp

lemma miss_nonce0: "\<not> startswith (digest genesis_hash t1 0 [tx1]) (zeros 1)"
  by (simp add: digest_nonce0 hash_nonce0_def startswith_def zeros_def)

lemma hit_nonce1: "startswith (digest genesis_hash t1 1 [tx1]) (zeros 1)"
  by (simp add: digest_nonce1 hash_nonce1_def startswith_def zeros_def)

section \<open>Blocks\<close>

lemma Block_simps [simp]:
  "hash (Block p txs ts n) = digest p ts n txs"
  "nonce (Block p txs ts n) = n"
  "previous_hash (Block p txs ts n) = p"
  "timestamp (Block p txs ts n) = ts"
  "transactions (Block p txs ts n) = txs"
  by (simp_all add: Block_def)

lemma calculate_hash_Block: "calculate_hash (Block p txs ts n) = digest p ts n txs"
  by (simp add: calculate_hash_def)

lemma startswith_iff: "startswith s p \<longleftrightarrow> (\<exists>rest. s = p @ rest)"
proof
  assume "startswith s p"
  then have "s = p @ drop (length p) s"
    unfolding startswith_def by (metis append_take_drop_id)
  then show "\<exists>rest. s = p @ rest" ..
next
  assume "\<exists>rest. s = p @ rest"
  then show "startswith s p" by (auto simp: startswith_def)
qed

lemma startswith_empty: "startswith s (zeros 0)"
  by (simp add: startswith_def zeros_def)

section \<open>The mining loop\<close>

lemma mine_post_stop:
  assumes "\<not> (mx = None \<or> n < the mx)"
  shows "mine_post p txs pre mx ts n t (None, t)"
proof -
  from assms obtain M where M: "mx = Some M" "M \<le> n" by (cases mx) auto
  then show ?thesis by (auto simp: mine_post_def)
qed

lemma mine_post_hit:
  assumes "mx = None \<or> n < the mx" "startswith (digest p ts n txs) pre"
  shows "mine_post p txs pre mx ts n t (Some (Block p txs ts n), t + 1)"
  unfolding mine_post_def using assms
  by (auto intro!: exI[of _ "0::nat"])

lemma mine_post_next:
  assumes g: "mx = None \<or> n < the mx"
    and miss: "\<not> startswith (digest p ts n txs) pre"
    and ih: "mine_post p txs pre mx ts (n + 1) (t + 1) res"
  shows "mine_post p txs pre mx ts n t res"
proof (cases res)
  case (Pair ob c)
  show ?thesis
  proof (cases ob)
    case None
    with Pair ih obtain M where M: "mx = Some M" "c = t + 1 + nat (M - (n + 1))"
      "\<forall>m. n + 1 \<le> m \<and> m < M \<longrightarrow> \<not> startswith (digest p ts m txs) pre"
      by (auto simp: mine_post_def)
    from g M(1) have lt: "n < M" by simp
    then have c: "c = t + nat (M - n)" using M(2) by simp
    have "\<forall>m. n \<le> m \<and> m < M \<longrightarrow> \<not> startswith (digest p ts m txs) pre"
    proof (intro allI impI)
      fix m assume "n \<le> m \<and> m < M"
      then consider "m = n" | "n + 1 \<le> m \<and> m < M" by linarith
      then show "\<not> startswith (digest p ts m txs) pre"
        using miss M(3) by cases auto
    qed
    with M(1) c Pair None show ?thesis by (simp add: mine_post_def)
  next
    case (Some b)
    with Pair ih obtain k where k: "b = Block p txs ts (n + 1 + int k)" "c = t + 1 + k + 1"
      "startswith (digest p ts (n + 1 + int k) txs) pre"
      "\<forall>j<k. \<not> startswith (digest p ts (n + 1 + int j) txs) pre"
      "mx = None \<or> n + 1 + int k < the mx"
      by (auto simp: mine_post_def)
    have e: "n + 1 + int k = n + int (Suc k)" by simp
    have "\<forall>j<Suc k. \<not> startswith (digest p ts (n + int j) txs) pre"
    proof (intro allI impI)
      fix j assume j: "j < Suc k"
      show "\<not> startswith (digest p ts (n + int j) txs) pre"
      proof (cases j)
        case 0
        with miss show ?thesis by simp
      next
        case (Suc j')
        with j have "j' < k" by simp
        with k(4) have "\<not> startswith (digest p ts (n + 1 + int j') txs) pre" by blast
        moreover have "n + 1 + int j' = n + int j" using Suc by simp
        ultimately show ?thesis by simp
      qed
    qed
    with k e Pair Some show ?thesis
      unfolding mine_post_def by (auto intro!: exI[of _ "Suc k"])
  qed
qed

lemma mine_loop_post:
  assumes "mine_loop p txs pre mx ts n t = Some res"
  shows "mine_post p txs pre mx ts n t res"
proof (rule mine_loop.raw_induct[where P = mine_post, OF _ assms], goal_cases)
  case (1 f p txs pre mx ts n t res)
  show ?case
  proof (cases "mx = None \<or> n < the mx")
    case False
    with 1(2) have "res = (None, t)" by auto
    with mine_post_stop[OF False, of p txs pre ts t] show ?thesis by simp
  next
    case g: True
    show ?thesis
    proof (cases "startswith (digest p ts n txs) pre")
      case True
      with g 1(2) have "res = (Some (Block p txs ts n), t + 1)" by auto
      with mine_post_hit[OF g True, of t] show ?thesis by simp
    next
      case False
      with g 1(2) have "f p txs pre mx ts (n + 1) (t + 1) = Some res" by auto
      then have "mine_post p txs pre mx ts (n + 1) (t + 1) res" by (rule 1(1))
      with g False show ?thesis by (rule mine_post_next)
    qed
  qed
qed



lemma mine_loop_found:
  assumes "startswith (digest p ts (n + int k) txs) pre"
    and "\<forall>j<k. \<not> startswith (digest p ts (n + int j) txs) pre"
    and "mx = None \<or> n + int k < the mx"
  shows "mine_loop p txs pre mx ts n t = Some (Some (Block p txs ts (n + int k)), t + k + 1)"
  using assms
proof (induction k arbitrary: n t)
  case 0
  then show ?case by (subst mine_loop.simps) simp
next
  case (Suc k)
  have miss: "\<not> startswith (digest p ts n txs) pre" using Suc.prems(2) by force
  have g: "mx = None \<or> n < the mx" using Suc.prems(3) by auto
  have e: "n + 1 + int k = n + int (Suc k)" by simp
  have "mine_loop p txs pre mx ts (n + 1) (t + 1)
          = Some (Some (Block p txs ts (n + 1 + int k)), t + 1 + k + 1)"
  proof (rule Suc.IH)
    show "startswith (digest p ts (n + 1 + int k) txs) pre"
      unfolding e by (rule Suc.prems(1))
    show "\<forall>j<k. \<not> startswith (digest p ts (n + 1 + int j) txs) pre"
    proof (intro allI impI)
      fix j assume "j < k"
      then have "\<not> startswith (digest p ts (n + int (Suc j)) txs) pre"
        using Suc.prems(2) by auto
      moreover have "n + 1 + int j = n + int (Suc j)" by simp
      ultimately show "\<not> startswith (digest p ts (n + 1 + int j) txs) pre" by metis
    qed
    show "mx = None \<or> n + 1 + int k < the mx"
      unfolding e by (rule Suc.prems(3))
  qed
  with miss g show ?case by (subst mine_loop.simps) (simp add: add.assoc)
qed

lemma mine_loop_exhausted:
  assumes "\<forall>m. n \<le> m \<and> m < M \<longrightarrow> \<not> startswith (digest p ts m txs) pre"
  shows "mine_loop p txs pre (Some M) ts n t = Some (None, t + nat (M - n))"
  using assms
proof (induction "nat (M - n)" arbitrary: n t)
  case 0
  then have "M \<le> n" by simp
  then show ?case by (subst mine_loop.simps) simp
next
  case (Suc d)
  then have lt: "n < M" by linarith
  with Suc.prems have miss: "\<not> startswith (digest p ts n txs) pre" by simp
  have "d = nat (M - (n + 1))" using Suc.hyps(2) by linarith
  moreover have "\<forall>m. n + 1 \<le> m \<and> m < M \<longrightarrow> \<not> startswith (digest p ts m txs) pre"
    using Suc.prems by simp
  ultimately have "mine_loop p txs pre (Some M) ts (n + 1) (t + 1)
      = Some (None, t + 1 + nat (M - (n + 1)))"
    by (rule Suc.hyps(1))
  moreover have "t + 1 + nat (M - (n + 1)) = t + nat (M - n)" using lt by linarith
  ultimately show ?case using lt miss by (subst mine_loop.simps) simp
qed

section \<open>The run, step by step\<close>

lemma chain_Blockchain:
  "chain (Blockchain now1 now2)
     = [Block (replicate 64 (CHR ''0''))
          [Transaction (replicate 64 (CHR ''0'')) (replicate 64 (CHR ''0'')) (PyFloat ''0.0'') now1]
          now2 0]"
  by (simp add: Blockchain_def create_genesis_block_def)

lemma tip_hash: "hash (last (chain (Blockchain t0 t0))) = genesis_hash"
  by (simp add: chain_Blockchain digest_genesis)

lemma run_mine_block:
  "mine_block genesis_hash [tx1] 1 0 None t1 = Some (Some (Block genesis_hash [tx1] t1 1), 2)"
proof -
  have a: "startswith (digest genesis_hash t1 (0 + int 1) [tx1]) (zeros 1)"
    using hit_nonce1 by simp
  have b: "\<forall>j<1. \<not> startswith (digest genesis_hash t1 (0 + int j) [tx1]) (zeros 1)"
    using miss_nonce0 by simp
  have c: "None = None \<or> 0 + int 1 < the (None :: int option)" by simp
  from mine_loop_found[OF a b c, of 0] show ?thesis by (simp add: mine_block_def)
qed

section \<open>Sequential search\<close>

text \<open>
  C5.  When \<open>mine_block\<close> returns a block, the block is the one built from the
  arguments and the clock reading with the smallest nonce from \<open>start_nonce\<close> on
  whose digest starts with \<open>difficulty\<close> zeros; it does return one whenever such a
  nonce exists (below \<open>max_nonce\<close>, if there is a bound).  The result is a function
  of the arguments and the clock reading, so a second run on the same values
  returns the same nonce.  With difficulty 0 the first candidate is returned,
  with the nonce \<open>start_nonce\<close>, after one test.
\<close>

theorem mine_block_smallest_nonce:
  "(mine_block p txs d s mx now = Some (Some b, c) \<longrightarrow>
      b = Block p txs now (nonce b) \<and> s \<le> nonce b \<and> startswith (hash b) (zeros d)
      \<and> (\<forall>m. s \<le> m \<and> m < nonce b \<longrightarrow> \<not> startswith (digest p now m txs) (zeros d)))
   \<and> ((\<exists>m. s \<le> m \<and> (mx = None \<or> m < the mx) \<and> startswith (digest p now m txs) (zeros d))
        \<longrightarrow> (\<exists>b' c'. mine_block p txs d s mx now = Some (Some b', c')))
   \<and> (mx = None \<or> s < the mx \<longrightarrow>
        mine_block p txs 0 s mx now = Some (Some (Block p txs now s), 1))"
proof (intro conjI impI)
  assume r: "mine_block p txs d s mx now = Some (Some b, c)"
  then have "mine_post p txs (zeros d) mx now s 0 (Some b, c)"
    unfolding mine_block_def by (rule mine_loop_post)
  then obtain k where k: "b = Block p txs now (s + int k)"
    "startswith (digest p now (s + int k) txs) (zeros d)"
    "\<forall>j<k. \<not> startswith (digest p now (s + int j) txs) (zeros d)"
    by (auto simp: mine_post_def)
  from k(1) have nb: "nonce b = s + int k" by simp
  show "b = Block p txs now (nonce b)" using k(1) nb by simp
  show "s \<le> nonce b" using nb by simp
  show "startswith (hash b) (zeros d)" using k(1,2) by simp
  show "\<forall>m. s \<le> m \<and> m < nonce b \<longrightarrow> \<not> startswith (digest p now m txs) (zeros d)"
  proof (intro allI impI)
    fix m assume m: "s \<le> m \<and> m < nonce b"
    then have "nat (m - s) < k" using nb by linarith
    with k(3) have "\<not> startswith (digest p now (s + int (nat (m - s))) txs) (zeros d)" by blast
    moreover have "s + int (nat (m - s)) = m" using m by simp
    ultimately show "\<not> startswith (digest p now m txs) (zeros d)" by simp
  qed
next
  assume "\<exists>m. s \<le> m \<and> (mx = None \<or> m < the mx) \<and> startswith (digest p now m txs) (zeros d)"
  then obtain m where m: "s \<le> m" "mx = None \<or> m < the mx"
    "startswith (digest p now m txs) (zeros d)" by blast
  define Q where "Q k = startswith (digest p now (s + int k) txs) (zeros d)" for k
  have "Q (nat (m - s))" using m(1,3) by (simp add: Q_def)
  then have least: "Q (LEAST k. Q k)" and le: "(LEAST k. Q k) \<le> nat (m - s)"
    by (rule LeastI, rule Least_le)
  define k where "k = (LEAST k. Q k)"
  have a: "startswith (digest p now (s + int k) txs) (zeros d)"
    using least by (simp add: k_def Q_def)
  have b: "\<forall>j<k. \<not> startswith (digest p now (s + int j) txs) (zeros d)"
    using not_less_Least[of _ Q] by (auto simp: k_def Q_def)
  have c: "mx = None \<or> s + int k < the mx" using m(1,2) le by (auto simp: k_def)
  from mine_loop_found[OF a b c, of 0]
  show "\<exists>b' c'. mine_block p txs d s mx now = Some (Some b', c')"
    by (simp add: mine_block_def)
next
  assume g: "mx = None \<or> s < the mx"
  have a: "startswith (digest p now (s + int 0) txs) (zeros 0)" by (rule startswith_empty)
  have b: "\<forall>j<(0::nat). \<not> startswith (digest p now (s + int j) txs) (zeros 0)" by simp
  have c: "mx = None \<or> s + int 0 < the mx" using g by simp
  from mine_loop_found[OF a b c, of 0]
  show "mine_block p txs 0 s mx now = Some (Some (Block p txs now s), 1)"
    by (simp add: mine_block_def)
qed

text \<open>
  In the run, the search with difficulty 1 from nonce 0 misses at nonce 0 and
  returns the block of nonce 1; with difficulty 0 it returns the block of nonce 0.
\<close>

theorem mine_block_smallest_nonce_witness:
  "mine_block genesis_hash [tx1] 1 0 None t1 = Some (Some (Block genesis_hash [tx1] t1 1), 2)
   \<and> nonce (Block genesis_hash [tx1] t1 1) = 1
   \<and> startswith (hash (Block genesis_hash [tx1] t1 1)) (zeros 1)
   \<and> \<not> startswith (digest genesis_hash t1 0 [tx1]) (zeros 1)
   \<and> mine_block genesis_hash [tx1] 0 0 None t1 = Some (Some (Block genesis_hash [tx1] t1 0), 1)"
  using mine_block_smallest_nonce[of genesis_hash "[tx1]" 1 0 None t1
          "Block genesis_hash [tx1] t1 1" 2]
        mine_block_smallest_nonce[of genesis_hash "[tx1]" 0 0 None t1]
        run_mine_block
  by simp

text \<open>
  C6, as the code has it.  With a bound \<open>max_nonce\<close> and no nonce from \<open>start_nonce\<close>
  up to the bound whose digest has the prefix, \<open>mine_block\<close> returns (it does not
  run forever), by its ordinary \<^verbatim>\<open>return\<close>, the pair \<^verbatim>\<open>None, nonces_tested\<close>: no block,
  and the number of candidates it tested, one for each nonce of the range.
\<close>

theorem mine_block_exhausted:
  assumes "\<forall>m. start_nonce \<le> m \<and> m < max_nonce \<longrightarrow>
             \<not> startswith (digest p now m txs) (zeros d)"
  shows "mine_block p txs d start_nonce (Some max_nonce) now
           = Some (None, nat (max_nonce - start_nonce))"
  using mine_loop_exhausted[OF assms, of 0] by (simp add: mine_block_def)

theorem mine_block_exhausted_witness:
  "\<not> startswith (digest genesis_hash t1 0 [tx1]) (zeros 1)
   \<and> mine_block genesis_hash [tx1] 1 0 (Some 1) t1 = Some (None, 1)"
proof -
  have h: "\<forall>m. (0::int) \<le> m \<and> m < 1 \<longrightarrow> \<not> startswith (digest genesis_hash t1 m [tx1]) (zeros 1)"
  proof (intro allI impI)
    fix m :: int assume "0 \<le> m \<and> m < 1"
    then have "m = 0" by simp
    then show "\<not> startswith (digest genesis_hash t1 m [tx1]) (zeros 1)"
      using miss_nonce0 by simp
  qed
  show ?thesis using miss_nonce0 mine_block_exhausted[OF h] by simp
qed

text \<open>
  C6, as the specification has it, fails: the code has no \<^verbatim>\<open>ExhaustedError\<close>, no
  exception class and no \<^verbatim>\<open>raise\<close>.  In the run, the search bounded by
  \<^verbatim>\<open>max_nonce=1\<close> tests nonce 0, misses, and returns the value \<^verbatim>\<open>(None, 1)\<close> to its
  caller like any other result; bounded by \<^verbatim>\<open>max_nonce=0\<close> it returns \<^verbatim>\<open>(None, 0)\<close>
  without a test.
\<close>

theorem mine_block_returns_none_counterexample:
  "mine_block genesis_hash [tx1] 1 0 (Some 1) t1 = Some (None, 1)
   \<and> mine_block genesis_hash [tx1] 1 0 (Some 0) t1 = Some (None, 0)"
proof -
  have h1: "\<forall>m. (0::int) \<le> m \<and> m < 1 \<longrightarrow> \<not> startswith (digest genesis_hash t1 m [tx1]) (zeros 1)"
  proof (intro allI impI)
    fix m :: int assume "0 \<le> m \<and> m < 1"
    then have "m = 0" by simp
    then show "\<not> startswith (digest genesis_hash t1 m [tx1]) (zeros 1)"
      using miss_nonce0 by simp
  qed
  have h0: "\<forall>m. (0::int) \<le> m \<and> m < 0 \<longrightarrow> \<not> startswith (digest genesis_hash t1 m [tx1]) (zeros 1)"
    by auto
  from mine_loop_exhausted[OF h1, of 0] mine_loop_exhausted[OF h0, of 0]
  show ?thesis by (simp add: mine_block_def)
qed

text \<open>
  C10.  When \<open>mine_block\<close> returns a block, \<open>nonces_tested\<close> is the nonce of the block
  minus \<open>start_nonce\<close> plus one, the number of the nonces from \<open>start_nonce\<close> to
  the winning one: the block is the candidate of the winning nonce, its digest
  has the prefix, and the candidate of every nonce from \<open>start_nonce\<close> up to the
  winning one was tested before it and missed.
\<close>

theorem mine_block_nonces_tested:
  assumes "mine_block p txs d start_nonce mx now = Some (Some b, c)"
  shows "int c = nonce b - start_nonce + 1
         \<and> c = card {start_nonce..nonce b}
         \<and> start_nonce \<le> nonce b
         \<and> b = Block p txs now (nonce b)
         \<and> startswith (digest p now (nonce b) txs) (zeros d)
         \<and> (\<forall>m. start_nonce \<le> m \<and> m < nonce b \<longrightarrow>
               \<not> startswith (digest p now m txs) (zeros d))"
proof -
  from assms have "mine_post p txs (zeros d) mx now start_nonce 0 (Some b, c)"
    unfolding mine_block_def by (rule mine_loop_post)
  then obtain k where k: "b = Block p txs now (start_nonce + int k)" "c = 0 + k + 1"
    "startswith (digest p now (start_nonce + int k) txs) (zeros d)"
    "\<forall>j<k. \<not> startswith (digest p now (start_nonce + int j) txs) (zeros d)"
    by (auto simp: mine_post_def)
  from k(1) have nb: "nonce b = start_nonce + int k" by simp
  have c1: "int c = nonce b - start_nonce + 1" using k(2) nb by simp
  have c2: "c = card {start_nonce..nonce b}" using k(2) nb by simp
  have c3: "start_nonce \<le> nonce b" using nb by simp
  have c4: "b = Block p txs now (nonce b)" using k(1) nb by simp
  have c5: "startswith (digest p now (nonce b) txs) (zeros d)" using k(3) nb by simp
  have c6: "\<forall>m. start_nonce \<le> m \<and> m < nonce b \<longrightarrow>
               \<not> startswith (digest p now m txs) (zeros d)"
  proof (intro allI impI)
    fix m assume m: "start_nonce \<le> m \<and> m < nonce b"
    then have "nat (m - start_nonce) < k" using nb by linarith
    with k(4)
    have "\<not> startswith (digest p now (start_nonce + int (nat (m - start_nonce))) txs) (zeros d)"
      by blast
    moreover have "start_nonce + int (nat (m - start_nonce)) = m" using m by simp
    ultimately show "\<not> startswith (digest p now m txs) (zeros d)" by simp
  qed
  from c1 c2 c3 c4 c5 c6 show ?thesis by (intro conjI)
qed

text \<open>
  In the run, the search from nonce 0 returns the block of nonce 1 after two
  tests: nonce 0, which misses, and nonce 1, which hits.
\<close>

theorem mine_block_nonces_tested_witness:
  "mine_block genesis_hash [tx1] 1 0 None t1 = Some (Some (Block genesis_hash [tx1] t1 1), 2)
   \<and> int 2 = nonce (Block genesis_hash [tx1] t1 1) - 0 + 1
   \<and> (2::nat) = card {(0::int)..1}
   \<and> startswith (digest genesis_hash t1 1 [tx1]) (zeros 1)
   \<and> \<not> startswith (digest genesis_hash t1 0 [tx1]) (zeros 1)"
proof -
  note T = mine_block_nonces_tested[OF run_mine_block]
  from T have a: "int 2 = nonce (Block genesis_hash [tx1] t1 1) - 0 + 1" by simp
  from T have b: "(2::nat) = card {(0::int)..1}" by simp
  from T have c: "startswith (digest genesis_hash t1 1 [tx1]) (zeros 1)" by simp
  from T have "\<forall>m. 0 \<le> m \<and> m < 1 \<longrightarrow> \<not> startswith (digest genesis_hash t1 m [tx1]) (zeros 1)"
    by simp
  then have d: "\<not> startswith (digest genesis_hash t1 0 [tx1]) (zeros 1)" by simp
  from run_mine_block a b c d show ?thesis by (intro conjI)
qed

section \<open>The validator\<close>

lemma validate_block_violated:
  "validate_block self b d =
     (case violated self b d of
        [] \<Rightarrow> (True, [])
      | e # es \<Rightarrow> (False, [diagnostic self b d e]))"
  by (simp add: validate_block_def violated_def get_latest_block_def)

lemma valid_candidate:
  "violated (Blockchain t0 t0) (Block genesis_hash [tx1] t1 1) 1 = []"
  using tip_hash hit_nonce1
  by (simp add: violated_def chain_Blockchain calculate_hash_Block)

text \<open>
  C2.  \<open>validate_block\<close> returns \<^verbatim>\<open>True\<close> exactly when the candidate links to the tip
  (if the chain has one), its hash field is the digest of its other fields, the
  hash field starts with \<open>difficulty\<close> characters \<^verbatim>\<open>0\<close>, and it has a transaction.
\<close>

theorem validate_block_iff:
  "fst (validate_block self b d) \<longleftrightarrow>
     (chain self \<noteq> [] \<longrightarrow> previous_hash b = hash (last (chain self)))
     \<and> digest (previous_hash b) (timestamp b) (nonce b) (transactions b) = hash b
     \<and> (\<exists>rest. hash b = replicate (nat d) (CHR ''0'') @ rest)
     \<and> transactions b \<noteq> []"
  by (auto simp: validate_block_def get_latest_block_def calculate_hash_def startswith_iff
        zeros_def)

text \<open>The block mined in the run is valid on the new chain with difficulty 1.\<close>

theorem validate_block_iff_witness:
  "chain (Blockchain t0 t0) \<noteq> []
   \<and> previous_hash (Block genesis_hash [tx1] t1 1) = hash (last (chain (Blockchain t0 t0)))
   \<and> digest genesis_hash t1 1 [tx1] = hash (Block genesis_hash [tx1] t1 1)
   \<and> hash (Block genesis_hash [tx1] t1 1) = replicate (nat 1) (CHR ''0'') @ tl hash_nonce1
   \<and> transactions (Block genesis_hash [tx1] t1 1) \<noteq> []
   \<and> fst (validate_block (Blockchain t0 t0) (Block genesis_hash [tx1] t1 1) 1)"
proof -
  have e: "hash (Block genesis_hash [tx1] t1 1) = replicate (nat 1) (CHR ''0'') @ tl hash_nonce1"
    by (simp add: digest_nonce1) (simp add: hash_nonce1_def)
  then have "\<exists>rest. hash (Block genesis_hash [tx1] t1 1) = replicate (nat 1) (CHR ''0'') @ rest"
    by (rule exI)
  with e show ?thesis
    using validate_block_iff[of "Blockchain t0 t0" "Block genesis_hash [tx1] t1 1" 1] tip_hash
    by (simp add: chain_Blockchain)
qed

text \<open>
  C3, as the code has it.  \<open>add_block\<close> is \<open>validate_block\<close>, then the insertion.  The
  validator stops at the first condition the candidate breaks, in the order
  linkage, hash, difficulty, transactions, and prints the line of that condition
  only; \<open>add_block\<close> then prints one more line, returns \<^verbatim>\<open>False\<close> whatever the condition
  was, and leaves the chain as it is.  When no condition is broken it appends the
  block and returns \<^verbatim>\<open>True\<close>.
\<close>

theorem add_block_first_violation:
  "add_block self b d =
     (case violated self b d of
        [] \<Rightarrow> (True, self\<lparr>chain := chain self @ [b]\<rparr>, [])
      | e # es \<Rightarrow> (False, self, [diagnostic self b d e, ''Block validation failed'']))"
  by (simp add: add_block_def validate_block_violated split: list.split)

theorem add_block_first_violation_witness:
  "add_block (Blockchain t0 t0) (Block genesis_hash [tx1] t1 1) 1
     = (True,
        (Blockchain t0 t0)\<lparr>chain := chain (Blockchain t0 t0) @ [Block genesis_hash [tx1] t1 1]\<rparr>,
        [])"
  using add_block_first_violation[of "Blockchain t0 t0" "Block genesis_hash [tx1] t1 1" 1]
  by (simp add: valid_candidate)

text \<open>
  C3, as the specification has it, fails: a candidate that breaks all four
  conditions is reported for the first one only, and the value returned is the
  plain \<^verbatim>\<open>False\<close> of every other failure.
\<close>

theorem add_block_short_circuit_counterexample:
  "violated (Blockchain t0 t0) broken_block 1
     = [LinkageError, HashMismatchError, DifficultyNotMetError, EmptyBlockError]
   \<and> add_block (Blockchain t0 t0) broken_block 1
     = (False, Blockchain t0 t0,
        [''Invalid previous_hash: expected 471f04d2af148be5..., got ff...'',
         ''Block validation failed''])"
proof -
  have "length (calculate_hash broken_block) = 64"
    by (simp add: calculate_hash_def length_digest)
  then have m: "calculate_hash broken_block \<noteq> ''abc''" by auto
  have v: "violated (Blockchain t0 t0) broken_block 1
     = [LinkageError, HashMismatchError, DifficultyNotMetError, EmptyBlockError]"
    using m tip_hash
    by (simp add: violated_def chain_Blockchain broken_block_def genesis_hash_def
          startswith_def zeros_def)
  have "add_block (Blockchain t0 t0) broken_block 1
     = (False, Blockchain t0 t0,
        [''Invalid previous_hash: expected 471f04d2af148be5..., got ff...'',
         ''Block validation failed''])"
    using tip_hash
    by (simp add: add_block_def validate_block_violated v)
       (simp add: broken_block_def genesis_hash_def)
  with v show ?thesis by simp
qed

section \<open>The digest input\<close>

lemma quoted_keys:
  "encode_basestring_ascii ''amount'' = quoted ''amount''"
  "encode_basestring_ascii ''recipient'' = quoted ''recipient''"
  "encode_basestring_ascii ''sender'' = quoted ''sender''"
  "encode_basestring_ascii ''timestamp'' = quoted ''timestamp''"
  by (simp_all add: encode_basestring_ascii_def quoted_def escape_ascii_def dquote_def
        backslash_def)

lemma json_dumps_transaction:
  "json_dumps (PDict (Transaction_to_dict tx)) =
     ''{'' @ quoted ''amount'' @ '': '' @ floatstr (amount tx)
       @ '', '' @ quoted ''recipient'' @ '': '' @ encode_basestring_ascii (recipient tx)
       @ '', '' @ quoted ''sender'' @ '': '' @ encode_basestring_ascii (sender tx)
       @ '', '' @ quoted ''timestamp'' @ '': '' @ floatstr (tx_timestamp tx) @ ''}''"
  by (simp add: Transaction_to_dict_def quoted_keys)

text \<open>
  C4, as the code has it.  The digest input is \<open>previous_hash\<close>, the \<^verbatim>\<open>repr\<close> of the
  timestamp, the decimal nonce and the JSON list of the transactions, in this
  order; each transaction is an object with the keys \<open>amount\<close>, \<open>recipient\<close>, \<open>sender\<close>,
  \<open>timestamp\<close> in this order, written with the default separators of \<^verbatim>\<open>json.dumps\<close>:
  a comma and a space between items, a colon and a space after a key.  The digest
  is the SHA-256 of the UTF-8 bytes of that string, 64 lowercase hexadecimal
  digits (256 bits).
\<close>

theorem block_string_canonical:
  "block_string p ts n txs =
     p @ float_repr ts @ str_int n
       @ ''['' @ join '', ''
           (map (\<lambda>tx. ''{'' @ quoted ''amount'' @ '': '' @ floatstr (amount tx)
                     @ '', '' @ quoted ''recipient'' @ '': ''
                     @ encode_basestring_ascii (recipient tx)
                     @ '', '' @ quoted ''sender'' @ '': '' @ encode_basestring_ascii (sender tx)
                     @ '', '' @ quoted ''timestamp'' @ '': '' @ floatstr (tx_timestamp tx)
                     @ ''}'') txs)
       @ '']''
   \<and> calculate_hash b =
       sha256_hexdigest
         (encode (block_string (previous_hash b) (timestamp b) (nonce b) (transactions b)))
   \<and> length (calculate_hash b) = 64
   \<and> set (calculate_hash b) \<subseteq> set ''0123456789abcdef''"
proof (intro conjI)
  show "block_string p ts n txs =
     p @ float_repr ts @ str_int n
       @ ''['' @ join '', ''
           (map (\<lambda>tx. ''{'' @ quoted ''amount'' @ '': '' @ floatstr (amount tx)
                     @ '', '' @ quoted ''recipient'' @ '': ''
                     @ encode_basestring_ascii (recipient tx)
                     @ '', '' @ quoted ''sender'' @ '': '' @ encode_basestring_ascii (sender tx)
                     @ '', '' @ quoted ''timestamp'' @ '': '' @ floatstr (tx_timestamp tx)
                     @ ''}'') txs)
       @ '']''"
    by (simp only: block_string_def Let_def json_dumps.simps(4) map_map comp_def
          json_dumps_transaction)
  show "calculate_hash b =
       sha256_hexdigest
         (encode (block_string (previous_hash b) (timestamp b) (nonce b) (transactions b)))"
    by (simp add: calculate_hash_def digest_def)
  show "length (calculate_hash b) = 64"
    by (simp add: calculate_hash_def length_digest)
  show "set (calculate_hash b) \<subseteq> set ''0123456789abcdef''"
    unfolding calculate_hash_def digest_def by (rule set_sha256_hexdigest)
qed

text \<open>The digest input of the block mined in the run, and its digest.\<close>

theorem block_string_canonical_witness:
  "block_string genesis_hash t1 1 [tx1] =
     genesis_hash @ ''1700000010.0'' @ ''1''
       @ ''[{'' @ quoted ''amount'' @ '': 10.0, '' @ quoted ''recipient'' @ '': '' @ quoted ''b''
       @ '', '' @ quoted ''sender'' @ '': '' @ quoted ''a''
       @ '', '' @ quoted ''timestamp'' @ '': 1700000001.5}]''
   \<and> calculate_hash (Block genesis_hash [tx1] t1 1) = hash_nonce1
   \<and> length hash_nonce1 = 64"
proof -
  have a: "encode_basestring_ascii ''a'' = quoted ''a''"
    "encode_basestring_ascii ''b'' = quoted ''b''"
    by (simp_all add: encode_basestring_ascii_def quoted_def escape_ascii_def dquote_def
          backslash_def)
  have s: "str_int 1 = ''1''"
    by (simp add: str_int_def str_nat.simps digit_char_def)
  have c: "calculate_hash (Block genesis_hash [tx1] t1 1) = hash_nonce1"
    by (simp add: calculate_hash_Block digest_nonce1)
  have l: "length hash_nonce1 = 64"
    by (simp add: hash_nonce1_def)
  have "block_string genesis_hash t1 1 [tx1] =
     genesis_hash @ ''1700000010.0'' @ ''1''
       @ ''[{'' @ quoted ''amount'' @ '': 10.0, '' @ quoted ''recipient'' @ '': '' @ quoted ''b''
       @ '', '' @ quoted ''sender'' @ '': '' @ quoted ''a''
       @ '', '' @ quoted ''timestamp'' @ '': 1700000001.5}]''"
    using block_string_canonical[of genesis_hash t1 1 "[tx1]" "Block genesis_hash [tx1] t1 1"]
    by (simp add: a s t1_def tx1_def Transaction_def floatstr_def)
  with c l show ?thesis by blast
qed

text \<open>
  C4, as the specification has it, fails: the code writes a space after every
  comma and colon of the serialization, so its digest input is not the one
  without whitespace.
\<close>

theorem block_string_whitespace_counterexample:
  "block_string genesis_hash t1 1 [tx1] \<noteq> spec_digest_input genesis_hash t1 1 [tx1]
   \<and> CHR '' '' \<in> set (block_string genesis_hash t1 1 [tx1])
   \<and> CHR '' '' \<notin> set (spec_digest_input genesis_hash t1 1 [tx1])"
  by code_simp

section \<open>Dictionaries written and read back\<close>

lemma as_str_Inr: "as_str v = Inr s \<longleftrightarrow> v = PStr s"
  by (cases v) auto

lemma as_float_Inr: "as_float v = Inr f \<longleftrightarrow> v = PFloat f"
  by (cases v) auto

lemma as_int_Inr: "as_int v = Inr i \<longleftrightarrow> v = PInt i"
  by (cases v) auto

lemma as_list_Inr: "as_list v = Inr xs \<longleftrightarrow> v = PList xs"
  by (cases v) auto

lemma as_dict_Inr: "as_dict v = Inr kvs \<longleftrightarrow> v = PDict kvs"
  by (cases v) auto

lemma bind_Inr: "bind m f = Inr y \<longleftrightarrow> (\<exists>x. m = Inr x \<and> f x = Inr y)"
  by (cases m) (auto simp: bind_def)

lemma comprehension_Inr:
  "comprehension f xs = Inr ys \<Longrightarrow> list_all2 (\<lambda>x y. f x = Inr y) xs ys"
proof (induction xs arbitrary: ys)
  case Nil
  then show ?case by simp
next
  case (Cons x xs)
  from Cons.prems obtain y ys' where y: "f x = Inr y" "comprehension f xs = Inr ys'"
    "ys = y # ys'"
    by (auto simp: bind_Inr)
  with Cons.IH[OF y(2)] show ?case by simp
qed

lemma comprehension_map:
  assumes "\<And>x. f (g x) = Inr x"
  shows "comprehension f (map g xs) = Inr xs"
  by (induction xs) (simp_all add: assms bind_def)

lemma Transaction_round_trip: "Transaction_from_dict (Transaction_to_dict tx) = Inr tx"
  by (simp add: Transaction_from_dict_def Transaction_to_dict_def getitem_def bind_def
        Transaction_def)

lemma transactions_round_trip:
  "transactions_from (PList (map (\<lambda>tx. PDict (Transaction_to_dict tx)) txs)) = Inr txs"
proof -
  have "comprehension (\<lambda>tx. bind (as_dict tx) Transaction_from_dict)
          (map (\<lambda>tx. PDict (Transaction_to_dict tx)) txs) = Inr txs"
    by (rule comprehension_map) (simp add: bind_def Transaction_round_trip)
  then show ?thesis by (simp add: transactions_from_def bind_def)
qed

lemma Block_from_dict_stored:
  "Block_from_dict
     [(''previous_hash'', PStr p), (''timestamp'', PFloat ts), (''nonce'', PInt n),
      (''transactions'', PList (map (\<lambda>tx. PDict (Transaction_to_dict tx)) txs)),
      (''hash'', PStr h)]
   = Inr ((Block p txs ts n)\<lparr>hash := h\<rparr>)"
  by (simp add: Block_from_dict_def getitem_def bind_def transactions_round_trip)

lemma Block_round_trip: "Block_from_dict (Block_to_dict b) = Inr b"
  unfolding Block_to_dict_def Block_from_dict_stored by (simp add: Block_def)

lemma Blockchain_round_trip: "Blockchain_from_dict (Blockchain_to_dict c) = Inr c"
proof -
  have "comprehension (\<lambda>block_data. bind (as_dict block_data) Block_from_dict)
          (map (\<lambda>block'. PDict (Block_to_dict block')) (chain c)) = Inr (chain c)"
    by (rule comprehension_map) (simp add: bind_def Block_round_trip)
  then show ?thesis
    by (simp add: Blockchain_from_dict_def Blockchain_to_dict_def getitem_def bind_def)
qed

lemma Block_from_dict_hash:
  assumes "Block_from_dict data = Inr b"
  shows "getitem data ''hash'' = Inr (PStr (hash b))"
  using assms
  by (auto simp: Block_from_dict_def bind_Inr as_str_Inr)

lemma forged_loads: "Block_from_dict forged_data = Inr forged_block"
proof -
  have "Block_from_dict forged_data = Inr ((Block genesis_hash [tx1] t1 0)\<lparr>hash := ''00c0ffee''\<rparr>)"
    unfolding forged_data_def using Block_from_dict_stored[of genesis_hash t1 0 "[tx1]"]
    by simp
  then show ?thesis by (simp add: forged_block_def Block_def)
qed

lemma forged_mismatch: "calculate_hash forged_block \<noteq> hash forged_block"
proof -
  have "length (calculate_hash forged_block) = 64"
    by (simp add: calculate_hash_def length_digest)
  moreover have "length (hash forged_block) = 8"
    by (simp add: forged_block_def)
  ultimately show ?thesis by auto
qed

text \<open>
  C8, as the code has it.  A block built by the constructor carries the digest of
  its fields, and so does every block \<open>mine_block\<close> returns.  \<open>Block.from_dict\<close>
  builds the block from the stored fields and then puts the stored hash into the
  hash field without comparing the two: the block it returns satisfies the hash
  contract exactly when the stored hash is the digest of the stored fields, as it
  is in the dictionary \<open>to_dict\<close> writes for a block that satisfies it (reading that
  dictionary back returns the same block).
\<close>

theorem hash_contract_by_construction:
  "calculate_hash (Block p txs ts n) = hash (Block p txs ts n)
   \<and> (mine_block p txs d s mx now = Some (Some b, c) \<longrightarrow> calculate_hash b = hash b)
   \<and> Block_from_dict (Block_to_dict b') = Inr b'
   \<and> (Block_from_dict data = Inr b'' \<longrightarrow>
        getitem data ''hash'' = Inr (PStr (hash b''))
        \<and> (calculate_hash b'' = hash b'' \<longleftrightarrow>
             getitem data ''hash''
               = Inr (PStr (digest (previous_hash b'') (timestamp b'') (nonce b'')
                              (transactions b'')))))"
proof (intro conjI impI)
  show "calculate_hash (Block p txs ts n) = hash (Block p txs ts n)"
    by (simp add: calculate_hash_Block)
next
  assume "mine_block p txs d s mx now = Some (Some b, c)"
  then have "mine_post p txs (zeros d) mx now s 0 (Some b, c)"
    unfolding mine_block_def by (rule mine_loop_post)
  then obtain k where "b = Block p txs now (s + int k)"
    by (auto simp: mine_post_def)
  then show "calculate_hash b = hash b" by (simp add: calculate_hash_Block)
next
  show "Block_from_dict (Block_to_dict b') = Inr b'" by (rule Block_round_trip)
next
  assume a: "Block_from_dict data = Inr b''"
  then show h: "getitem data ''hash'' = Inr (PStr (hash b''))" by (rule Block_from_dict_hash)
  show "calculate_hash b'' = hash b'' \<longleftrightarrow>
          getitem data ''hash''
            = Inr (PStr (digest (previous_hash b'') (timestamp b'') (nonce b'')
                           (transactions b'')))"
    unfolding h calculate_hash_def by auto
qed

text \<open>
  The block mined in the run satisfies the contract; the stored block with the
  hash \<^verbatim>\<open>00c0ffee\<close> is read back with that hash.
\<close>

theorem hash_contract_by_construction_witness:
  "mine_block genesis_hash [tx1] 1 0 None t1 = Some (Some (Block genesis_hash [tx1] t1 1), 2)
   \<and> calculate_hash (Block genesis_hash [tx1] t1 1) = hash (Block genesis_hash [tx1] t1 1)
   \<and> Block_from_dict forged_data = Inr forged_block
   \<and> getitem forged_data ''hash'' = Inr (PStr (hash forged_block))"
  using hash_contract_by_construction[of genesis_hash "[tx1]" t1 1 1 0 None t1
          "Block genesis_hash [tx1] t1 1" 2 forged_block forged_data forged_block]
        run_mine_block forged_loads
  by simp

text \<open>
  C8, as the specification has it, fails for deserialization: the stored block
  with the hash \<^verbatim>\<open>00c0ffee\<close> is rebuilt by \<open>Block.from_dict\<close> with a hash field that
  is not the digest of its fields.
\<close>

theorem from_dict_breaks_contract_counterexample:
  "Block_from_dict forged_data = Inr forged_block
   \<and> hash forged_block = ''00c0ffee''
   \<and> calculate_hash forged_block \<noteq> hash forged_block"
  using forged_loads forged_mismatch by (simp add: forged_block_def)

text \<open>
  C9, as the code has it.  \<open>Blockchain.from_dict\<close> reads the list under the key
  \<open>blocks\<close> and rebuilds every block with \<open>Block.from_dict\<close>, so every block of the
  chain it returns carries the hash stored for it, whether or not that is the
  digest of the stored fields; no digest is compared and no load is refused for
  a mismatch.  Reading back the dictionary \<open>to_dict\<close> writes for a chain returns that
  chain, so the blocks that satisfied the hash contract before still do.
\<close>

theorem Blockchain_from_dict_trusts_hashes:
  "Blockchain_from_dict (Blockchain_to_dict c) = Inr c
   \<and> (Blockchain_from_dict data = Inr c' \<longrightarrow>
        (\<exists>blocks. getitem data ''blocks'' = Inr (PList blocks)
           \<and> list_all2
                (\<lambda>v b. \<exists>block_data. v = PDict block_data
                           \<and> Block_from_dict block_data = Inr b
                           \<and> getitem block_data ''hash'' = Inr (PStr (hash b)))
                blocks (chain c')))"
proof (intro conjI impI)
  show "Blockchain_from_dict (Blockchain_to_dict c) = Inr c" by (rule Blockchain_round_trip)
next
  assume "Blockchain_from_dict data = Inr c'"
  then obtain blocks where b: "getitem data ''blocks'' = Inr (PList blocks)"
    and co: "comprehension (\<lambda>block_data. bind (as_dict block_data) Block_from_dict) blocks
               = Inr (chain c')"
    by (auto simp: Blockchain_from_dict_def bind_Inr as_list_Inr)
  from co have "list_all2 (\<lambda>v b. bind (as_dict v) Block_from_dict = Inr b) blocks (chain c')"
    by (rule comprehension_Inr)
  then have "list_all2
                (\<lambda>v b. \<exists>block_data. v = PDict block_data
                           \<and> Block_from_dict block_data = Inr b
                           \<and> getitem block_data ''hash'' = Inr (PStr (hash b)))
                blocks (chain c')"
    by (rule list_all2_mono) (auto simp: bind_Inr as_dict_Inr Block_from_dict_hash)
  with b show "\<exists>blocks. getitem data ''blocks'' = Inr (PList blocks)
           \<and> list_all2
                (\<lambda>v b. \<exists>block_data. v = PDict block_data
                           \<and> Block_from_dict block_data = Inr b
                           \<and> getitem block_data ''hash'' = Inr (PStr (hash b)))
                blocks (chain c')"
    by blast
qed

lemma forged_chain_loads: "Blockchain_from_dict forged_chain_data = Inr \<lparr>chain = [forged_block]\<rparr>"
  by (simp add: Blockchain_from_dict_def forged_chain_data_def getitem_def bind_def
        forged_loads)

theorem Blockchain_from_dict_trusts_hashes_witness:
  "Blockchain_from_dict forged_chain_data = Inr \<lparr>chain = [forged_block]\<rparr>
   \<and> getitem forged_chain_data ''blocks'' = Inr (PList [PDict forged_data])
   \<and> Block_from_dict forged_data = Inr forged_block
   \<and> getitem forged_data ''hash'' = Inr (PStr (hash forged_block))"
proof -
  from Blockchain_from_dict_trusts_hashes[of _ forged_chain_data "\<lparr>chain = [forged_block]\<rparr>"]
    forged_chain_loads
  obtain blocks where b: "getitem forged_chain_data ''blocks'' = Inr (PList blocks)"
    and l: "list_all2
                (\<lambda>v b. \<exists>block_data. v = PDict block_data
                           \<and> Block_from_dict block_data = Inr b
                           \<and> getitem block_data ''hash'' = Inr (PStr (hash b)))
                blocks [forged_block]"
    by auto
  have "getitem forged_chain_data ''blocks'' = Inr (PList [PDict forged_data])"
    by (simp add: forged_chain_data_def getitem_def)
  with b have e: "blocks = [PDict forged_data]" by simp
  with l have "Block_from_dict forged_data = Inr forged_block
     \<and> getitem forged_data ''hash'' = Inr (PStr (hash forged_block))"
    by (auto simp: list_all2_Cons2)
  with b e forged_chain_loads show ?thesis by simp
qed

text \<open>
  C9, as the specification has it, fails: a representation whose only block
  stores a hash that is not its digest is loaded, and the block is in the chain.
\<close>

theorem load_accepts_mismatch_counterexample:
  "Blockchain_from_dict forged_chain_data = Inr \<lparr>chain = [forged_block]\<rparr>
   \<and> calculate_hash forged_block \<noteq> hash forged_block"
  using forged_chain_loads forged_mismatch by simp

section \<open>Workers\<close>

lemma worker_body_Found:
  assumes "worker_body w p txs ts pre step flag st = Inl (Found w' n h bd k)"
  shows "w' = w \<and> n = fst st \<and> h = digest p ts n txs \<and> startswith h pre
         \<and> bd = Block_to_dict (Block p txs ts n) \<and> k = snd st + 1"
  using assms
  by (cases st) (auto simp: worker_body_def Let_def Block_to_dict_def split: if_splits)

lemma worker_body_Inr:
  assumes "worker_body w p txs ts pre step flag st = Inr st'"
  shows "st' = (fst st + step, snd st + 1) \<and> \<not> startswith (digest p ts (fst st) txs) pre"
  using assms
  by (cases st) (auto simp: worker_body_def Let_def split: if_splits)

lemma worker_loop_Found:
  assumes "worker_loop w p txs ts pre step flag st = Some r"
  shows "\<forall>w' n h bd k. r = Found w' n h bd k \<longrightarrow>
           w' = w \<and> h = digest p ts n txs \<and> startswith h pre
           \<and> bd = Block_to_dict (Block p txs ts n)"
proof (rule worker_loop.raw_induct[where P = "\<lambda>w p txs ts pre step flag st r.
         \<forall>w' n h bd k. r = Found w' n h bd k \<longrightarrow>
           w' = w \<and> h = digest p ts n txs \<and> startswith h pre
           \<and> bd = Block_to_dict (Block p txs ts n)", OF _ assms], goal_cases)
  case (1 f w p txs ts pre step flag st r)
  show ?case
  proof (cases "worker_body w p txs ts pre step flag st")
    case (Inl result)
    with 1(2) have "r = result" by simp
    with Inl show ?thesis by (auto dest: worker_body_Found)
  next
    case (Inr st')
    with 1(2) have "f w p txs ts pre step flag st' = Some r" by simp
    then show ?thesis by (rule 1(1))
  qed
qed

lemma found_block_of_Block:
  "found_block (Block_to_dict (Block p txs ts n)) = Inr (Block p txs ts n)"
  by (simp add: found_block_def Block_to_dict_def getitem_def bind_def
        transactions_round_trip Block_def)

lemma worker_reaches_nonce:
  assumes "worker_reaches w p txs ts pre step flag start st"
  shows "fst st = start + int (snd st) * step"
  using assms
proof (induction rule: worker_reaches.induct)
  case reach_start
  show ?case by simp
next
  case (reach_step st st')
  from worker_body_Inr[OF reach_step.hyps(2)] have "st' = (fst st + step, snd st + 1)"
    by simp
  with reach_step.IH show ?case by (simp add: algebra_simps)
qed

lemma spawned_iff:
  "(w, start, step) \<in> set (spawned N) \<longleftrightarrow> 0 \<le> w \<and> w < N \<and> start = w \<and> step = N"
proof -
  have "w \<in> set (py_range N) \<longleftrightarrow> 0 \<le> w \<and> w < N"
  proof
    assume "w \<in> set (py_range N)"
    then show "0 \<le> w \<and> w < N" by (auto simp: py_range_def)
  next
    assume a: "0 \<le> w \<and> w < N"
    then have "nat w \<in> set [0..<nat N]" by auto
    then have "int (nat w) \<in> set (map int [0..<nat N])"
      unfolding set_map by (rule imageI)
    with a show "w \<in> set (py_range N)" by (simp add: py_range_def)
  qed
  then show ?thesis by (auto simp: spawned_def)
qed

text \<open>
  C1.  A report with \<^verbatim>\<open>"found": True\<close> that \<open>worker_mine\<close> returns carries in
  \<^verbatim>\<open>block_data\<close> the fields of the block the worker built and in \<^verbatim>\<open>hash\<close> its digest,
  which starts with the required zeros.  The block the coordinator builds from
  these fields, with the hash field overwritten by the reported hash, is that
  block: its hash field is the digest of its fields, so the hash check of
  \<open>validate_block\<close> finds no mismatch; with the difficulty of the search the
  validator can reject it only for its link to the tip or for an empty list of
  transactions.
\<close>

theorem winner_report_hash_contract:
  assumes "worker_mine w p transactions_data ts d start step flag
             = Some (Inr (Found w' n h bd k))"
  shows "\<exists>b. found_block bd = Inr b \<and> calculate_hash b = hash b \<and> hash b = h
            \<and> previous_hash b = p \<and> timestamp b = ts \<and> nonce b = n
            \<and> comprehension Transaction_from_dict transactions_data = Inr (transactions b)
            \<and> startswith (hash b) (zeros d)
            \<and> (fst (validate_block self b d) \<longleftrightarrow>
                  (chain self = [] \<or> previous_hash b = hash (last (chain self)))
                  \<and> transactions b \<noteq> [])"
proof -
  from assms obtain txs where
    t: "comprehension Transaction_from_dict transactions_data = Inr txs"
    and l: "worker_loop w p txs ts (zeros d) step flag (start, 0) = Some (Found w' n h bd k)"
    by (auto simp: worker_mine_def split: sum.splits)
  from worker_loop_Found[OF l]
  have f: "h = digest p ts n txs" "startswith h (zeros d)"
    "bd = Block_to_dict (Block p txs ts n)"
    by auto
  let ?b = "Block p txs ts n"
  have "found_block bd = Inr ?b" using f(3) by (simp add: found_block_of_Block)
  moreover have "calculate_hash ?b = hash ?b" by (simp add: calculate_hash_Block)
  moreover have "fst (validate_block self ?b d) \<longleftrightarrow>
                  (chain self = [] \<or> previous_hash ?b = hash (last (chain self)))
                  \<and> transactions ?b \<noteq> []"
    using f(1,2)
    by (auto simp: validate_block_def get_latest_block_def calculate_hash_Block)
  ultimately show ?thesis using f(1,2) t by auto
qed

text \<open>
  In the run, the only worker of a pool of one misses at nonce 0 and reports the
  block of nonce 1, which the coordinator rebuilds.
\<close>

lemma run_worker:
  "worker_mine 0 genesis_hash [Transaction_to_dict tx1] t1 1 0 1 (\<lambda>n. False)
     = Some (Inr (Found 0 1 hash_nonce1 (Block_to_dict (Block genesis_hash [tx1] t1 1)) 2))"
proof -
  have b0: "worker_body 0 genesis_hash [tx1] t1 (zeros 1) 1 (\<lambda>n. False) (0, 0) = Inr (1, 1)"
    using miss_nonce0 by (simp add: worker_body_def check_interval_def)
  have b1: "worker_body 0 genesis_hash [tx1] t1 (zeros 1) 1 (\<lambda>n. False) (1, 1)
              = Inl (Found 0 1 hash_nonce1 (Block_to_dict (Block genesis_hash [tx1] t1 1)) 2)"
    using hit_nonce1 by (simp add: worker_body_def Block_to_dict_def digest_nonce1)
  have "worker_loop 0 genesis_hash [tx1] t1 (zeros 1) 1 (\<lambda>n. False) (0, 0)
          = Some (Found 0 1 hash_nonce1 (Block_to_dict (Block genesis_hash [tx1] t1 1)) 2)"
    by (subst worker_loop.simps, simp only: b0 sum.case)
       (subst worker_loop.simps, simp only: b1 sum.case)
  then show ?thesis
    by (simp add: worker_mine_def bind_def Transaction_round_trip)
qed

theorem winner_report_hash_contract_witness:
  "worker_mine 0 genesis_hash [Transaction_to_dict tx1] t1 1 0 1 (\<lambda>n. False)
     = Some (Inr (Found 0 1 hash_nonce1 (Block_to_dict (Block genesis_hash [tx1] t1 1)) 2))
   \<and> found_block (Block_to_dict (Block genesis_hash [tx1] t1 1))
       = Inr (Block genesis_hash [tx1] t1 1)
   \<and> calculate_hash (Block genesis_hash [tx1] t1 1) = hash_nonce1
   \<and> hash (Block genesis_hash [tx1] t1 1) = hash_nonce1"
proof -
  from winner_report_hash_contract[OF run_worker]
  obtain b where b: "found_block (Block_to_dict (Block genesis_hash [tx1] t1 1)) = Inr b"
    "calculate_hash b = hash b" "hash b = hash_nonce1"
    by blast
  from b(1) have "b = Block genesis_hash [tx1] t1 1" by (simp add: found_block_of_Block)
  with b run_worker show ?thesis by simp
qed

text \<open>
  C7.  The coordinator starts worker \<open>i\<close> of \<open>N\<close> with \<open>start_nonce = i\<close> and
  \<open>step = N\<close>.  In every state its loop passes through, the nonce it tests is \<open>i\<close>
  plus \<open>N\<close> times the number of nonces tested before, so it is congruent to \<open>i\<close>
  modulo \<open>N\<close>; two different workers never test the same nonce; and every nonce
  \<open>n \<ge> 0\<close> is in the class of the worker \<open>n mod N\<close>, at its step \<open>n div N\<close>.
\<close>

theorem worker_residue_classes:
  "((w, start, step) \<in> set (spawned N)
      \<and> worker_reaches w p txs ts pre step flag start (nonce', tested)
      \<longrightarrow> start = w \<and> step = N \<and> 0 \<le> w \<and> w < N
          \<and> nonce' = w + int tested * N \<and> nonce' mod N = w)
   \<and> ((w1, start1, step1) \<in> set (spawned N) \<and> (w2, start2, step2) \<in> set (spawned N)
      \<and> worker_reaches w1 p txs ts pre step1 flag1 start1 (nonce1, tested1)
      \<and> worker_reaches w2 p txs ts pre step2 flag2 start2 (nonce2, tested2)
      \<and> w1 \<noteq> w2
      \<longrightarrow> nonce1 \<noteq> nonce2)
   \<and> (0 \<le> n \<and> 0 < N
      \<longrightarrow> (n mod N, n mod N, N) \<in> set (spawned N)
          \<and> n = n mod N + int (nat (n div N)) * N)"
proof -
  have A: "(w, start, step) \<in> set (spawned N)
      \<and> worker_reaches w p txs ts pre step flag start (nonce', tested)
      \<longrightarrow> start = w \<and> step = N \<and> 0 \<le> w \<and> w < N
          \<and> nonce' = w + int tested * N \<and> nonce' mod N = w"
  proof (rule impI)
    assume a: "(w, start, step) \<in> set (spawned N)
      \<and> worker_reaches w p txs ts pre step flag start (nonce', tested)"
    then have s: "0 \<le> w" "w < N" "start = w" "step = N" by (auto simp: spawned_iff)
    from a worker_reaches_nonce[of w p txs ts pre step flag start "(nonce', tested)"]
    have e: "nonce' = w + int tested * N" using s by simp
    have "nonce' mod N = w" unfolding e using s by simp
    with s e show "start = w \<and> step = N \<and> 0 \<le> w \<and> w < N
          \<and> nonce' = w + int tested * N \<and> nonce' mod N = w" by simp
  qed
  have B: "(w1, start1, step1) \<in> set (spawned N) \<and> (w2, start2, step2) \<in> set (spawned N)
      \<and> worker_reaches w1 p txs ts pre step1 flag1 start1 (nonce1, tested1)
      \<and> worker_reaches w2 p txs ts pre step2 flag2 start2 (nonce2, tested2)
      \<and> w1 \<noteq> w2
      \<longrightarrow> nonce1 \<noteq> nonce2"
  proof (rule impI)
    assume a: "(w1, start1, step1) \<in> set (spawned N) \<and> (w2, start2, step2) \<in> set (spawned N)
      \<and> worker_reaches w1 p txs ts pre step1 flag1 start1 (nonce1, tested1)
      \<and> worker_reaches w2 p txs ts pre step2 flag2 start2 (nonce2, tested2)
      \<and> w1 \<noteq> w2"
    then have s1: "0 \<le> w1" "w1 < N" "start1 = w1" "step1 = N"
      and s2: "0 \<le> w2" "w2 < N" "start2 = w2" "step2 = N"
      by (auto simp: spawned_iff)
    from a worker_reaches_nonce[of w1 p txs ts pre step1 flag1 start1 "(nonce1, tested1)"]
    have e1: "nonce1 = w1 + int tested1 * N" using s1 by simp
    from a worker_reaches_nonce[of w2 p txs ts pre step2 flag2 start2 "(nonce2, tested2)"]
    have e2: "nonce2 = w2 + int tested2 * N" using s2 by simp
    have "nonce1 mod N = w1" unfolding e1 using s1 by simp
    moreover have "nonce2 mod N = w2" unfolding e2 using s2 by simp
    ultimately show "nonce1 \<noteq> nonce2" using a by auto
  qed
  have C: "0 \<le> n \<and> 0 < N
      \<longrightarrow> (n mod N, n mod N, N) \<in> set (spawned N)
          \<and> n = n mod N + int (nat (n div N)) * N"
  proof (rule impI)
    assume a: "0 \<le> n \<and> 0 < N"
    then have "0 \<le> n mod N" "n mod N < N" by simp_all
    then have m: "(n mod N, n mod N, N) \<in> set (spawned N)" by (simp add: spawned_iff)
    have "0 \<le> n div N" using a by (simp add: pos_imp_zdiv_nonneg_iff)
    then have "n = n mod N + int (nat (n div N)) * N" by simp
    with m show "(n mod N, n mod N, N) \<in> set (spawned N)
          \<and> n = n mod N + int (nat (n div N)) * N" by simp
  qed
  from A B C show ?thesis by (intro conjI)
qed

text \<open>
  With two workers, worker 0 misses at nonce 0 of the run and goes on to nonce 2,
  worker 1 starts at nonce 1, and nonce 5 is the third nonce of worker 1.
\<close>

lemma run_worker0_of_2:
  "worker_reaches 0 genesis_hash [tx1] t1 (zeros 1) 2 (\<lambda>n. False) 0 (2, 1)"
proof -
  have "worker_body 0 genesis_hash [tx1] t1 (zeros 1) 2 (\<lambda>n. False) (0, 0) = Inr (2, 1)"
    using miss_nonce0 by (simp add: worker_body_def check_interval_def)
  with reach_start[of 0 genesis_hash "[tx1]" t1 "zeros 1" 2 "\<lambda>n. False" 0]
  show ?thesis by (rule reach_step)
qed

theorem worker_residue_classes_witness:
  "(0, 0, 2) \<in> set (spawned 2) \<and> (1, 1, 2) \<in> set (spawned 2)
   \<and> worker_reaches 0 genesis_hash [tx1] t1 (zeros 1) 2 (\<lambda>n. False) 0 (2, 1)
   \<and> worker_reaches 1 genesis_hash [tx1] t1 (zeros 1) 2 (\<lambda>n. False) 1 (1, 0)
   \<and> (2::int) = 0 + int 1 * 2 \<and> (2::int) mod 2 = 0
   \<and> (2::int) \<noteq> 1
   \<and> (5::int) = 5 mod 2 + int (nat (5 div 2)) * 2"
proof -
  have s: "(0, 0, 2) \<in> set (spawned 2)" "(1, 1, 2) \<in> set (spawned 2)"
    by (simp_all add: spawned_iff)
  have r1: "worker_reaches 1 genesis_hash [tx1] t1 (zeros 1) 2 (\<lambda>n. False) 1 (1, 0)"
    by (rule reach_start)
  note r0 = run_worker0_of_2
  note T = worker_residue_classes[where w = 0 and start = 0 and step = 2 and N = 2
             and p = genesis_hash and txs = "[tx1]" and ts = t1 and pre = "zeros 1"
             and flag = "\<lambda>n. False" and nonce' = 2 and tested = 1 and n = 5]
  from T s r0 have "(2::int) = 0 + int 1 * 2 \<and> (2::int) mod 2 = 0" by simp
  moreover from T have "(5::int) = 5 mod 2 + int (nat (5 div 2)) * 2" by simp
  ultimately show ?thesis using s r0 r1 by simp
qed

end
